theory Spec2Isabelle
  imports Complex_Main "HOL-Library.Char_ord" "HOL-Library.List_Lexorder" "HOL-Library.Sublist"
    "HOL-Library.Multiset"
begin

section \<open>The introspection data model\<close>

text \<open>
  The generator reads a GraphQL introspection document. The objects it indexes with
  string keys are modelled as records with one field per key that the code reads;
  a JSON \<open>null\<close> is \<open>None\<close>. Entries of \<open>interfaces\<close>, \<open>enumValues\<close> and
  \<open>possibleTypes\<close> are objects of which only the key \<open>name\<close> is ever read.
\<close>

datatype named_ref = NamedRef (nr_name: string)

datatype type_ref =
  TypeRef (ref_kind: string) (ref_name: "string option") (ofType: "type_ref option")

record arg =
  arg_name :: string
  arg_type :: type_ref
  defaultValue :: "string option"

record field =
  field_name :: string
  field_type :: type_ref
  args :: "arg list"

record gql_type =
  t_kind :: string
  t_name :: string
  t_fields :: "field list option"
  t_inputFields :: "field list option"
  t_interfaces :: "named_ref list option"
  t_enumValues :: "named_ref list option"
  t_possibleTypes :: "named_ref list option"

text \<open>Truth value of a possibly-null list: \<open>None\<close> and the empty list are false.\<close>

fun py_bool :: "'a list option \<Rightarrow> bool" where
  "py_bool None = False"
| "py_bool (Some xs) = (xs \<noteq> [])"

text \<open>\<open>x or ()\<close> for a possibly-null list.\<close>

fun or_empty :: "'a list option \<Rightarrow> 'a list" where
  "or_empty None = []"
| "or_empty (Some xs) = xs"

section \<open>The phase-3 comparator\<close>

fun has_iface :: "named_ref list \<Rightarrow> string \<Rightarrow> bool" where
  "has_iface [] name = False"
| "has_iface (iface # ifaces) name =
     (if name = nr_name iface then True else has_iface ifaces name)"

text \<open>
  \<open>depend_cmp\<close> reaches \<open>len\<close> and \<open>has_iface\<close> only when both interface lists are
  true, hence lists; \<open>or_empty\<close> reads them there.
\<close>

definition depend_cmp :: "gql_type \<Rightarrow> gql_type \<Rightarrow> int" where
  "depend_cmp a b =
     (let a_ifaces = t_interfaces a; b_ifaces = t_interfaces b in
      if \<not> py_bool a_ifaces \<and> py_bool b_ifaces then - 1
      else if py_bool a_ifaces \<and> \<not> py_bool b_ifaces then 1
      else if \<not> py_bool a_ifaces \<and> \<not> py_bool b_ifaces then 0
      else if length (or_empty a_ifaces) < length (or_empty b_ifaces) then
        (if has_iface (or_empty a_ifaces) (t_name b) then 1
         else if has_iface (or_empty b_ifaces) (t_name a) then - 1
         else 0)
      else
        (if has_iface (or_empty b_ifaces) (t_name a) then - 1
         else if has_iface (or_empty a_ifaces) (t_name b) then 1
         else 0))"


section \<open>Python values and their printed form\<close>

datatype error =
    AssertionError "string option"
  | KeyError string
  | TypeError
  | AttributeError
  | ValueError
  | GraphQLSyntaxError
  | SystemExit string

text \<open>
  Strings are sequences of code points below 256. \<open>py_repr_str\<close> is \<open>repr\<close> of a
  \<open>str\<close>: single quotes unless the text has a single quote and no double quote; the
  quote and the backslash are escaped, tab, newline and return have their letter,
  other unprintable code points are written \<open>\xhh\<close>.
\<close>

definition hex_digit :: "nat \<Rightarrow> char" where
  "hex_digit n = ''0123456789abcdef'' ! (n mod 16)"

definition printable :: "char \<Rightarrow> bool" where
  "printable c =
     (let n = (of_char c :: nat) in
      (32 \<le> n \<and> n < 127) \<or> (161 \<le> n \<and> n \<noteq> 173))"

definition repr_char :: "char \<Rightarrow> char \<Rightarrow> string" where
  "repr_char quote c =
     (if c = quote \<or> c = CHR 0x5C then [CHR 0x5C, c]
      else if c = CHR 0x09 then [CHR 0x5C, CHR ''t'']
      else if c = CHR 0x0A then [CHR 0x5C, CHR ''n'']
      else if c = CHR 0x0D then [CHR 0x5C, CHR ''r'']
      else if \<not> printable c then
        [CHR 0x5C, CHR ''x'', hex_digit (of_char c div 16), hex_digit (of_char c mod 16)]
      else [c])"

definition py_repr_str :: "string \<Rightarrow> string" where
  "py_repr_str s =
     (let quote = (if CHR 0x27 \<in> set s \<and> CHR 0x22 \<notin> set s then CHR 0x22 else CHR 0x27)
      in quote # concat (map (repr_char quote) s) @ [quote])"

fun py_join :: "string \<Rightarrow> string list \<Rightarrow> string" where
  "py_join sep [] = []"
| "py_join sep [x] = x"
| "py_join sep (x # y # ys) = x @ sep @ py_join sep (y # ys)"

text \<open>\<open>repr\<close> of a tuple of strings; a tuple of one element has a trailing comma.\<close>

definition py_repr_tuple :: "string list \<Rightarrow> string" where
  "py_repr_tuple xs =
     (if length xs = 1 then ''('' @ py_repr_str (hd xs) @ '',)''
      else ''('' @ py_join '', '' (map py_repr_str xs) @ '')'')"

text \<open>\<open>'%s' % x\<close> for a string or \<open>None\<close>.\<close>

fun py_str_opt :: "string option \<Rightarrow> string" where
  "py_str_opt None = ''None''"
| "py_str_opt (Some s) = s"

fun str_nat :: "nat \<Rightarrow> string" where
  "str_nat n =
     (if n < 10 then [''0123456789'' ! n]
      else str_nat (n div 10) @ [''0123456789'' ! (n mod 10)])"

definition str_int :: "int \<Rightarrow> string" where
  "str_int i = (if i < 0 then CHR ''-'' # str_nat (nat (- i)) else str_nat (nat i))"

text \<open>
  \<open>int(text)\<close> on the text of an integer token: an optional minus sign and decimal
  digits; any other text is a \<open>ValueError\<close>.
\<close>

definition digit_val :: "char \<Rightarrow> nat option" where
  "digit_val c =
     (let n = (of_char c :: nat) in if 48 \<le> n \<and> n \<le> 57 then Some (n - 48) else None)"

fun nat_of_digits :: "nat \<Rightarrow> string \<Rightarrow> nat option" where
  "nat_of_digits acc [] = Some acc"
| "nat_of_digits acc (c # cs) =
     (case digit_val c of None \<Rightarrow> None | Some d \<Rightarrow> nat_of_digits (10 * acc + d) cs)"

definition py_int :: "string \<Rightarrow> error + int" where
  "py_int s =
     (case s of
        [] \<Rightarrow> Inl ValueError
      | c # cs \<Rightarrow>
          if c = CHR ''-'' then
            (if cs = [] then Inl ValueError
             else case nat_of_digits 0 cs of
                    None \<Rightarrow> Inl ValueError
                  | Some n \<Rightarrow> Inr (- int n))
          else (case nat_of_digits 0 s of None \<Rightarrow> Inl ValueError | Some n \<Rightarrow> Inr (int n)))"

section \<open>The literal evaluator\<close>

text \<open>
  The value-literal syntax tree that the parser returns: one constructor per node kind
  that \<open>JSONOutputVisitor\<close> has a \<open>leave\<close> method for. An object field
  (\<open>ObjectField\<close>, a name node and a value) is a pair.
\<close>

datatype ast_value =
    IntValue string
  | FloatValue string
  | StringValue string
  | BooleanValue bool
  | EnumValue string
  | ListValue "ast_value list"
  | ObjectValue "(string \<times> ast_value) list"
  | NullValue

text \<open>
  The values that the evaluator handles. \<open>PFloat s\<close> is the float that \<open>float(s)\<close>
  returns: binary floating point is not modelled, the float is known by the text it
  was read from. \<open>PList\<close> is the sequence that a list node holds, \<open>PDict\<close> holds the
  items of a dict in insertion order, and \<open>PNode\<close> is a syntax node that the
  traversal left in place.
\<close>

datatype pyval =
    PNone
  | PBool bool
  | PInt int
  | PFloat string
  | PStr string
  | PList "pyval list"
  | PDict "(string \<times> pyval) list"
  | PNode ast_value

text \<open>
  Library code that is not part of the repository, taken as parameters:
  \<open>list.sort(key=functools.cmp_to_key(cmp))\<close>, \<open>BaseItem._to_python_name\<close>,
  \<open>graphql.language.parser.parse_value\<close>, \<open>repr(float(text))\<close> and \<open>repr\<close> of a
  syntax node.
\<close>

record py_lib =
  list_sort :: "(gql_type \<Rightarrow> gql_type \<Rightarrow> int) \<Rightarrow> gql_type list \<Rightarrow> gql_type list"
  to_python_name :: "string \<Rightarrow> string"
  parse_graphql_value :: "string \<Rightarrow> error + ast_value"
  float_repr :: "string \<Rightarrow> string"
  node_repr :: "ast_value \<Rightarrow> string"

text \<open>\<open>d[k] = v\<close> and \<open>dict(pairs)\<close> on the items of a dict.\<close>

fun dict_set :: "(string \<times> 'v) list \<Rightarrow> string \<Rightarrow> 'v \<Rightarrow> (string \<times> 'v) list" where
  "dict_set [] k v = [(k, v)]"
| "dict_set ((k', v') # d) k v =
     (if k' = k then (k', v) # d else (k', v') # dict_set d k v)"

definition py_dict :: "(string \<times> 'v) list \<Rightarrow> (string \<times> 'v) list" where
  "py_dict pairs = foldl (\<lambda>d (k, v). dict_set d k v) [] pairs"

text \<open>
  The \<open>leave\<close> methods of \<open>JSONOutputVisitor\<close>: what each returns for a node whose
  children the traversal has already dealt with.
\<close>

definition leave_IntValue :: "string \<Rightarrow> error + pyval" where
  "leave_IntValue node_value =
     (case py_int node_value of Inl e \<Rightarrow> Inl e | Inr i \<Rightarrow> Inr (PInt i))"

definition leave_FloatValue :: "string \<Rightarrow> error + pyval" where
  "leave_FloatValue node_value = Inr (PFloat node_value)"

definition leave_StringValue :: "string \<Rightarrow> error + pyval" where
  "leave_StringValue node_value = Inr (PStr node_value)"

definition leave_BooleanValue :: "bool \<Rightarrow> error + pyval" where
  "leave_BooleanValue node_value = Inr (PBool node_value)"

definition leave_EnumValue :: "string \<Rightarrow> error + pyval" where
  "leave_EnumValue node_value = Inr (PStr node_value)"

definition leave_ListValue :: "pyval list \<Rightarrow> error + pyval" where
  "leave_ListValue node_values = Inr (PList node_values)"

definition leave_ObjectValue :: "(string \<times> pyval) list \<Rightarrow> error + pyval" where
  "leave_ObjectValue node_fields = Inr (PDict (py_dict node_fields))"

definition leave_ObjectField :: "string \<Rightarrow> pyval \<Rightarrow> string \<times> pyval" where
  "leave_ObjectField node_name_value node_value = (node_name_value, node_value)"

definition leave_NullValue :: "error + pyval" where
  "leave_NullValue = Inr PNone"

text \<open>
  The traversal \<open>graphql.language.visitor.visit\<close> is library code, not part of the
  repository; the model follows the visitor convention of graphql-core 3, the
  library of the source's first import. What a \<open>leave\<close> method returns is an action:
  \<open>None\<close> and \<open>False\<close> leave the node as it is, \<open>True\<close> ends the whole traversal at
  once, and any other value replaces the node in its parent. The traversal keeps,
  for the children of the node it is in, the list of replacements made so far; when
  it ends, it returns the last replacement of the list it holds at that moment, or
  the root node when that list is empty.

  \<open>Done (Some v)\<close>: the node was replaced by \<open>v\<close>; \<open>Done None\<close>: it was left as it
  is; \<open>BreakHere\<close>: its \<open>leave\<close> method returned \<open>True\<close>; \<open>Stopped r\<close>: the traversal
  ended below, with \<open>r\<close> the last replacement held then; \<open>Raised e\<close>: a \<open>leave\<close>
  method raised.
\<close>

datatype 'a walk = Done 'a | BreakHere | Stopped "pyval option" | Raised error

definition act_on :: "error + pyval \<Rightarrow> pyval option walk" where
  "act_on r =
     (case r of
        Inl e \<Rightarrow> Raised e
      | Inr v \<Rightarrow>
          if v = PBool True then BreakHere
          else if v = PBool False \<or> v = PNone then Done None
          else Done (Some v))"

text \<open>
  \<open>visit_values\<close> walks the elements of a list node; \<open>prev\<close> is the last replacement
  among the elements before. \<open>visit_fields\<close> walks the fields of an object node; a
  field has the children \<open>name\<close>, which no method replaces, and \<open>value\<close>, and its own
  \<open>leave\<close> method returns a pair, which always replaces it.
\<close>

fun visit_node :: "ast_value \<Rightarrow> pyval option walk"
  and visit_values :: "ast_value list \<Rightarrow> pyval option \<Rightarrow> pyval list walk"
  and visit_fields :: "(string \<times> ast_value) list \<Rightarrow> (string \<times> pyval) list walk"
where
  "visit_node (IntValue s) = act_on (leave_IntValue s)"
| "visit_node (FloatValue s) = act_on (leave_FloatValue s)"
| "visit_node (StringValue s) = act_on (leave_StringValue s)"
| "visit_node (BooleanValue b) = act_on (leave_BooleanValue b)"
| "visit_node (EnumValue s) = act_on (leave_EnumValue s)"
| "visit_node (ListValue vs) =
     (case visit_values vs None of
        Done xs \<Rightarrow> act_on (leave_ListValue xs)
      | BreakHere \<Rightarrow> Stopped None
      | Stopped r \<Rightarrow> Stopped r
      | Raised e \<Rightarrow> Raised e)"
| "visit_node (ObjectValue fs) =
     (case visit_fields fs of
        Done kvs \<Rightarrow> act_on (leave_ObjectValue kvs)
      | BreakHere \<Rightarrow> Stopped None
      | Stopped r \<Rightarrow> Stopped r
      | Raised e \<Rightarrow> Raised e)"
| "visit_node NullValue = act_on leave_NullValue"
| "visit_values [] prev = Done []"
| "visit_values (v # vs) prev =
     (case visit_node v of
        Raised e \<Rightarrow> Raised e
      | Stopped r \<Rightarrow> Stopped r
      | BreakHere \<Rightarrow> Stopped prev
      | Done None \<Rightarrow>
          (case visit_values vs prev of Done xs \<Rightarrow> Done (PNode v # xs) | other \<Rightarrow> other)
      | Done (Some x) \<Rightarrow>
          (case visit_values vs (Some x) of Done xs \<Rightarrow> Done (x # xs) | other \<Rightarrow> other))"
| "visit_fields [] = Done []"
| "visit_fields (f # fs) =
     (case visit_node (snd f) of
        Raised e \<Rightarrow> Raised e
      | Stopped r \<Rightarrow> Stopped r
      | BreakHere \<Rightarrow> Stopped None
      | Done r \<Rightarrow>
          (case visit_fields fs of
             Done kvs \<Rightarrow>
               Done (leave_ObjectField (fst f)
                       (case r of None \<Rightarrow> PNode (snd f) | Some x \<Rightarrow> x) # kvs)
           | other \<Rightarrow> other))"

text \<open>What \<open>visit(value, JSONOutputVisitor())\<close> returns.\<close>

definition visit :: "ast_value \<Rightarrow> error + pyval" where
  "visit value =
     (case visit_node value of
        Done (Some x) \<Rightarrow> Inr x
      | Done None \<Rightarrow> Inr (PNode value)
      | BreakHere \<Rightarrow> Inr (PNode value)
      | Stopped (Some x) \<Rightarrow> Inr x
      | Stopped None \<Rightarrow> Inr (PNode value)
      | Raised e \<Rightarrow> Inl e)"

text \<open>
  The attribute \<open>value\<close> of a syntax node: the token text of a number, string or
  enum node, the boolean of a boolean node; list, object and null nodes have no
  such attribute.
\<close>

fun node_value :: "ast_value \<Rightarrow> error + pyval" where
  "node_value (IntValue s) = Inr (PStr s)"
| "node_value (FloatValue s) = Inr (PStr s)"
| "node_value (StringValue s) = Inr (PStr s)"
| "node_value (BooleanValue b) = Inr (PBool b)"
| "node_value (EnumValue s) = Inr (PStr s)"
| "node_value (ListValue vs) = Inl AttributeError"
| "node_value (ObjectValue fs) = Inl AttributeError"
| "node_value NullValue = Inl AttributeError"

text \<open>
  \<open>parse_graphql_value_to_json\<close>: parse, traverse, and when the result is a syntax
  node (\<open>isinstance(v, GraphQLASTValue)\<close>) take its \<open>value\<close>.
\<close>

definition parse_graphql_value_to_json :: "py_lib \<Rightarrow> string \<Rightarrow> error + pyval" where
  "parse_graphql_value_to_json lib source =
     (case parse_graphql_value lib source of
        Inl e \<Rightarrow> Inl e
      | Inr value \<Rightarrow>
          (case visit value of
             Inl e \<Rightarrow> Inl e
           | Inr v \<Rightarrow> (case v of PNode n \<Rightarrow> node_value n | _ \<Rightarrow> Inr v)))"

text \<open>\<open>repr\<close> of a value.\<close>

fun py_repr :: "py_lib \<Rightarrow> pyval \<Rightarrow> string"
  and py_repr_items :: "py_lib \<Rightarrow> pyval list \<Rightarrow> string list"
  and py_repr_pairs :: "py_lib \<Rightarrow> (string \<times> pyval) list \<Rightarrow> string list"
where
  "py_repr lib PNone = ''None''"
| "py_repr lib (PBool b) = (if b then ''True'' else ''False'')"
| "py_repr lib (PInt i) = str_int i"
| "py_repr lib (PFloat s) = float_repr lib s"
| "py_repr lib (PStr s) = py_repr_str s"
| "py_repr lib (PList xs) = ''['' @ py_join '', '' (py_repr_items lib xs) @ '']''"
| "py_repr lib (PDict kvs) = ''{'' @ py_join '', '' (py_repr_pairs lib kvs) @ ''}''"
| "py_repr lib (PNode n) = node_repr lib n"
| "py_repr_items lib [] = []"
| "py_repr_items lib (x # xs) = py_repr lib x # py_repr_items lib xs"
| "py_repr_pairs lib [] = []"
| "py_repr_pairs lib (kv # kvs) =
     (py_repr_str (fst kv) @ '': '' @ py_repr lib (snd kv)) # py_repr_pairs lib kvs"

section \<open>Loading the schema document\<close>

text \<open>
  A parsed JSON document, as \<open>json.load\<close> returns it. An object is the list of its
  items; \<open>dict_get\<close> is \<open>d.get(k, default)\<close>.
\<close>

datatype json =
    JNull
  | JBool bool
  | JInt int
  | JFloat real
  | JString string
  | JArray "json list"
  | JObject "(string \<times> json) list"

fun truthy :: "json \<Rightarrow> bool" where
  "truthy JNull = False"
| "truthy (JBool b) = b"
| "truthy (JInt i) = (i \<noteq> 0)"
| "truthy (JFloat r) = (r \<noteq> 0)"
| "truthy (JString s) = (s \<noteq> [])"
| "truthy (JArray xs) = (xs \<noteq> [])"
| "truthy (JObject kvs) = (kvs \<noteq> [])"

definition dict_get :: "(string \<times> json) list \<Rightarrow> string \<Rightarrow> json \<Rightarrow> json" where
  "dict_get d k dflt = (case map_of d k of None \<Rightarrow> dflt | Some v \<Rightarrow> v)"

definition load_schema :: "json \<Rightarrow> error + json" where
  "load_schema doc =
     (case doc of
        JObject schema \<Rightarrow>
          if truthy (dict_get schema ''types'' JNull) then Inr doc
          else
            (case dict_get schema ''data'' (JObject []) of
               JObject data \<Rightarrow>
                 if truthy (dict_get data ''__schema'' JNull)
                 then Inr (dict_get data ''__schema'' JNull)
                 else if truthy (dict_get schema ''__schema'' JNull)
                 then Inr (dict_get schema ''__schema'' JNull)
                 else Inl (SystemExit ''schema must be introspection object or query result'')
             | _ \<Rightarrow> Inl AttributeError)
      | _ \<Rightarrow> Inl (SystemExit ''schema must be a JSON object''))"

text \<open>
  \<open>main\<close>, as the effects it has in order. The output argument \<open>schema.py\<close> is
  absent, or \<open>-\<close> (standard output), or a path that \<open>argparse\<close> opens for writing
  while it parses the command line. Without the argument, \<open>gen_out_file\<close> takes
  standard output when the input is standard input, and otherwise prints the path
  it derives and opens it for writing. Only then is the document loaded; the
  generator runs on what \<open>load_schema\<close> returns and the file is closed after it.
  Opening a file for writing creates it or empties it.

  Taken as given: \<open>out_fname\<close>, the path that \<open>gen_out_file\<close> derives from the input
  name and the schema name, and \<open>gen\<close>, which stands for building \<open>CodeGen\<close> on the
  loaded object and calling its \<open>write\<close>, and returns the error raised, if any, and
  the chunks written.
\<close>

datatype event = Open string | Print string | Write string | Close

datatype out_arg = NoOutArg | StdoutArg | PathArg string

definition events_before_load :: "out_arg \<Rightarrow> string \<Rightarrow> string \<Rightarrow> event list" where
  "events_before_load out_file in_fname out_fname =
     (case out_file of
        PathArg p \<Rightarrow> [Open p]
      | StdoutArg \<Rightarrow> []
      | NoOutArg \<Rightarrow>
          if in_fname = ''<stdin>'' then []
          else [Print (''Writing to: '' @ out_fname @ [CHR 0x0A]), Open out_fname])"

definition main ::
  "(json \<Rightarrow> error option \<times> string list) \<Rightarrow> out_arg \<Rightarrow> string \<Rightarrow> string \<Rightarrow> json \<Rightarrow>
   error option \<times> event list" where
  "main gen out_file in_fname out_fname doc =
     (let before = events_before_load out_file in_fname out_fname in
      case load_schema doc of
        Inl e \<Rightarrow> (Some e, before)
      | Inr schema \<Rightarrow>
          (case gen schema of
             (Some e, chunks) \<Rightarrow> (Some e, before @ map Write chunks)
           | (None, chunks) \<Rightarrow> (None, before @ map Write chunks @ [Close])))"

section \<open>The code generator\<close>

text \<open>
  The part of the introspection object that \<open>CodeGen\<close> reads: the declared types and
  the three root types, each \<open>null\<close> or an object with a \<open>name\<close>.
\<close>

record schema =
  s_types :: "gql_type list"
  s_queryType :: "named_ref option"
  s_mutationType :: "named_ref option"
  s_subscriptionType :: "named_ref option"

text \<open>
  The fields of \<open>CodeGen\<close> that do not change after \<open>__init__\<close>; the writer's output
  and \<open>written_types\<close> are the state that the \<open>write\<close> methods pass on.
\<close>

record codegen =
  schema_name :: string
  types :: "gql_type list"
  query_type :: "string option"
  mutation_type :: "string option"
  subscription_type :: "string option"
  uses_datetime :: bool
  uses_relay :: bool

record gen_state =
  out :: "string list"
  written_types :: "string set"

abbreviation NL :: string where
  "NL \<equiv> [CHR 0x0A]"

definition builtin_types :: "string list" where
  "builtin_types = [''Int'', ''Float'', ''String'', ''Boolean'', ''ID'']"

definition datetime_types :: "string list" where
  "datetime_types = [''DateTime'', ''Date'', ''Time'']"

definition relay_types :: "string list" where
  "relay_types = [''Node'', ''PageInfo'']"

definition builtin_enum_names :: "string list" where
  "builtin_enum_names = [''__TypeKind'', ''__DirectiveLocation'']"

definition builtin_object_names :: "string list" where
  "builtin_object_names =
     [''__Schema'', ''__Type'', ''__Field'', ''__Directive'', ''__EnumValue'', ''__InputValue'']"

text \<open>\<open>get_path(key, 'name')\<close> on a root type entry of the schema.\<close>

definition get_path :: "named_ref option \<Rightarrow> string option" where
  "get_path d = (case d of None \<Rightarrow> None | Some r \<Rightarrow> Some (nr_name r))"

text \<open>The loop of \<open>analyze\<close>, with its two flags; it stops once both are set.\<close>

fun analyze :: "gql_type list \<Rightarrow> bool \<Rightarrow> bool \<Rightarrow> bool \<times> bool" where
  "analyze [] uses_dt uses_rl = (uses_dt, uses_rl)"
| "analyze (t # ts) uses_dt uses_rl =
     (if t_name t \<in> set datetime_types then
        (if uses_rl then (True, uses_rl) else analyze ts True uses_rl)
      else if t_name t \<in> set relay_types then
        (if uses_dt then (uses_dt, True) else analyze ts uses_dt True)
      else analyze ts uses_dt uses_rl)"

definition CodeGen_init :: "string \<Rightarrow> schema \<Rightarrow> codegen" where
  "CodeGen_init name sch =
     (let ts = sort_key t_name (s_types sch);
          flags = analyze ts False False
      in \<lparr>schema_name = name, types = ts,
          query_type = get_path (s_queryType sch),
          mutation_type = get_path (s_mutationType sch),
          subscription_type = get_path (s_subscriptionType sch),
          uses_datetime = fst flags, uses_relay = snd flags\<rparr>)"

definition init_state :: gen_state where
  "init_state = \<lparr>out = [], written_types = {}\<rparr>"

text \<open>\<open>type_by_name\<close>: a dict built over \<open>types\<close> in order, so the last type of a name wins.\<close>

definition type_by_name :: "codegen \<Rightarrow> string \<Rightarrow> gql_type option" where
  "type_by_name cg n = find (\<lambda>t. t_name t = n) (rev (types cg))"

definition writer :: "string \<Rightarrow> gen_state \<Rightarrow> gen_state" where
  "writer text st = st\<lparr>out := out st @ [text]\<rparr>"

definition add_written :: "string \<Rightarrow> gen_state \<Rightarrow> gen_state" where
  "add_written n st = st\<lparr>written_types := insert n (written_types st)\<rparr>"

definition write_banner :: "string \<Rightarrow> gen_state \<Rightarrow> gen_state" where
  "write_banner text st =
     (let bar = replicate 72 (CHR ''#'')
      in writer (NL @ bar @ NL @ ''# '' @ text @ NL @ bar @ NL) st)"

definition write_type_enum :: "codegen \<Rightarrow> gql_type \<Rightarrow> gen_state \<Rightarrow> error + gen_state" where
  "write_type_enum cg t st =
     (let name = t_name t in
      if name \<in> set builtin_enum_names then Inr st
      else
        (case t_enumValues t of
           None \<Rightarrow> Inl TypeError
         | Some vs \<Rightarrow>
             Inr (add_written name
               (writer
                 (''class '' @ name @ ''(sgqlc.types.Enum):'' @ NL @
                  ''    __schema__ = '' @ schema_name cg @ NL @
                  ''    __choices__ = '' @ py_repr_tuple (map nr_name vs) @ NL @ NL @ NL)
                 st))))"

fun get_type_ref :: "string set \<Rightarrow> type_ref \<Rightarrow> string set \<Rightarrow> error + string" where
  "get_type_ref written (TypeRef kind name of_type) siblings =
     (if kind = ''NON_NULL'' then
        (case of_type of
           None \<Rightarrow> Inl TypeError
         | Some inner \<Rightarrow>
             (case get_type_ref written inner siblings of
                Inl e \<Rightarrow> Inl e
              | Inr r \<Rightarrow> Inr (''sgqlc.types.non_null('' @ r @ '')'')))
      else if kind = ''LIST'' then
        (case of_type of
           None \<Rightarrow> Inl TypeError
         | Some inner \<Rightarrow>
             (case get_type_ref written inner siblings of
                Inl e \<Rightarrow> Inl e
              | Inr r \<Rightarrow> Inr (''sgqlc.types.list_of('' @ r @ '')'')))
      else
        (case name of
           None \<Rightarrow> Inr ''None''
         | Some n \<Rightarrow>
             if n \<in> written \<and> n \<notin> siblings then Inr n else Inr (py_repr_str n)))"

definition get_py_fields_and_siblings :: "py_lib \<Rightarrow> field list \<Rightarrow> string list \<times> string set" where
  "get_py_fields_and_siblings lib own_fields =
     (let graphql_fields = map field_name own_fields
      in (map (to_python_name lib) graphql_fields, set graphql_fields))"

definition write_field_input ::
  "py_lib \<Rightarrow> field \<Rightarrow> string set \<Rightarrow> gen_state \<Rightarrow> error + gen_state" where
  "write_field_input lib fld siblings st =
     (let name = field_name fld in
      case get_type_ref (written_types st) (field_type fld) siblings of
        Inl e \<Rightarrow> Inl e
      | Inr tref \<Rightarrow>
          Inr (writer
            (''    '' @ to_python_name lib name @ '' = sgqlc.types.Field('' @ tref @
             '', graphql_name='' @ py_repr_str name @ '')'' @ NL)
            st))"

text \<open>The text that \<open>write_arg\<close> puts after \<open>default=\<close>.\<close>

definition arg_default :: "py_lib \<Rightarrow> string option \<Rightarrow> error + string" where
  "arg_default lib defval =
     (case defval of
        None \<Rightarrow> Inr ''None''
      | Some d \<Rightarrow>
          if d = [] then Inr d
          else if hd d = CHR ''$'' then
            Inr (''sgqlc.types.Variable('' @ py_repr_str (tl d) @ '')'')
          else
            (case parse_graphql_value_to_json lib d of
               Inl e \<Rightarrow> Inl e
             | Inr v \<Rightarrow> Inr (py_repr lib v)))"

definition write_arg ::
  "py_lib \<Rightarrow> arg \<Rightarrow> string set \<Rightarrow> gen_state \<Rightarrow> error + gen_state" where
  "write_arg lib a siblings st =
     (let name = arg_name a in
      case get_type_ref (written_types st) (arg_type a) siblings of
        Inl e \<Rightarrow> Inl e
      | Inr tref \<Rightarrow>
          (case arg_default lib (defaultValue a) of
             Inl e \<Rightarrow> Inl e
           | Inr defval \<Rightarrow>
               Inr (writer
                 (''        ('' @ py_repr_str (to_python_name lib name) @
                  '', sgqlc.types.Arg('' @ tref @ '', graphql_name='' @ py_repr_str name @
                  '', default='' @ defval @ '')),'' @ NL)
                 st)))"

fun write_args ::
  "py_lib \<Rightarrow> arg list \<Rightarrow> string set \<Rightarrow> gen_state \<Rightarrow> error + gen_state" where
  "write_args lib [] siblings st = Inr st"
| "write_args lib (a # as) siblings st =
     (case write_arg lib a siblings st of
        Inl e \<Rightarrow> Inl e
      | Inr st' \<Rightarrow> write_args lib as siblings st')"

definition write_field_output ::
  "py_lib \<Rightarrow> field \<Rightarrow> string set \<Rightarrow> gen_state \<Rightarrow> error + gen_state" where
  "write_field_output lib fld siblings st =
     (let name = field_name fld in
      case get_type_ref (written_types st) (field_type fld) siblings of
        Inl e \<Rightarrow> Inl e
      | Inr tref \<Rightarrow>
          (let st1 = writer
                 (''    '' @ to_python_name lib name @ '' = sgqlc.types.Field('' @ tref @
                  '', graphql_name='' @ py_repr_str name)
                 st
           in if args fld \<noteq> [] then
                (case write_args lib (args fld) siblings
                        (writer ('', args=sgqlc.types.ArgDict(('' @ NL) st1) of
                   Inl e \<Rightarrow> Inl e
                 | Inr st2 \<Rightarrow> Inr (writer ('')'' @ NL) (writer (''))'' @ NL @ ''    '') st2)))
              else Inr (writer ('')'' @ NL) st1)))"

fun write_fields ::
  "(field \<Rightarrow> string set \<Rightarrow> gen_state \<Rightarrow> error + gen_state) \<Rightarrow> field list \<Rightarrow>
   string set \<Rightarrow> gen_state \<Rightarrow> error + gen_state" where
  "write_fields write_field [] siblings st = Inr st"
| "write_fields write_field (fld # own_fields) siblings st =
     (case write_field fld siblings st of
        Inl e \<Rightarrow> Inl e
      | Inr st' \<Rightarrow> write_fields write_field own_fields siblings st')"

definition container_header :: "py_lib \<Rightarrow> codegen \<Rightarrow> string \<Rightarrow> string \<Rightarrow> field list \<Rightarrow> string" where
  "container_header lib cg name bases own_fields =
     ''class '' @ name @ ''('' @ bases @ ''):'' @ NL @
     ''    __schema__ = '' @ schema_name cg @ NL @
     ''    __field_names__ = '' @
       py_repr_tuple (fst (get_py_fields_and_siblings lib own_fields)) @ NL"

definition write_type_container ::
  "py_lib \<Rightarrow> codegen \<Rightarrow> gql_type \<Rightarrow> string \<Rightarrow> field list \<Rightarrow>
   (field \<Rightarrow> string set \<Rightarrow> gen_state \<Rightarrow> error + gen_state) \<Rightarrow> gen_state \<Rightarrow> error + gen_state" where
  "write_type_container lib cg t bases own_fields write_field st =
     (let name = t_name t;
          siblings = snd (get_py_fields_and_siblings lib own_fields)
      in case write_fields write_field own_fields siblings
                (writer (container_header lib cg name bases own_fields) st) of
           Inl e \<Rightarrow> Inl e
         | Inr st' \<Rightarrow> Inr (add_written name (writer (NL @ NL) st')))"

definition write_type_input_object ::
  "py_lib \<Rightarrow> codegen \<Rightarrow> gql_type \<Rightarrow> gen_state \<Rightarrow> error + gen_state" where
  "write_type_input_object lib cg t st =
     (case t_inputFields t of
        None \<Rightarrow> Inl TypeError
      | Some own_fields \<Rightarrow>
          write_type_container lib cg t ''sgqlc.types.Input'' own_fields
            (write_field_input lib) st)"

definition write_type_interface ::
  "py_lib \<Rightarrow> codegen \<Rightarrow> gql_type \<Rightarrow> gen_state \<Rightarrow> error + gen_state" where
  "write_type_interface lib cg t st =
     (case t_fields t of
        None \<Rightarrow> Inl TypeError
      | Some own_fields \<Rightarrow>
          write_type_container lib cg t ''sgqlc.types.Interface'' own_fields
            (write_field_output lib) st)"

text \<open>
  The loop of \<open>write_type_object\<close> over the implemented interfaces: it extends the
  bases and the set of inherited field names, and stops at the first interface that
  was not written yet.
\<close>

fun collect_interfaces ::
  "codegen \<Rightarrow> string set \<Rightarrow> named_ref list \<Rightarrow> string list \<Rightarrow> string set \<Rightarrow>
   error + (string list \<times> string set)" where
  "collect_interfaces cg written [] bases inherited_fields = Inr (bases, inherited_fields)"
| "collect_interfaces cg written (iface # ifaces) bases inherited_fields =
     (let iface_name = nr_name iface in
      if iface_name \<notin> written then Inl (AssertionError (Some iface_name))
      else
        (case type_by_name cg iface_name of
           None \<Rightarrow> Inl (KeyError iface_name)
         | Some it \<Rightarrow>
             (case t_fields it of
                None \<Rightarrow> Inl TypeError
              | Some fs \<Rightarrow>
                  collect_interfaces cg written ifaces (bases @ [iface_name])
                    (inherited_fields \<union> set (map field_name fs)))))"

definition write_type_object ::
  "py_lib \<Rightarrow> codegen \<Rightarrow> gql_type \<Rightarrow> gen_state \<Rightarrow> error + gen_state" where
  "write_type_object lib cg t st =
     (let name = t_name t in
      if name \<in> set builtin_object_names then Inr st
      else
        (let bases0 = (if uses_relay cg \<and> suffix ''Connection'' name
                       then [''sgqlc.types.relay.Connection''] else [''sgqlc.types.Type''])
         in case collect_interfaces cg (written_types st) (or_empty (t_interfaces t)) bases0 {} of
              Inl e \<Rightarrow> Inl e
            | Inr (bases, inherited_fields) \<Rightarrow>
                (case t_fields t of
                   None \<Rightarrow> Inl TypeError
                 | Some fs \<Rightarrow>
                     write_type_container lib cg t (py_join '', '' bases)
                       (filter (\<lambda>fld. field_name fld \<notin> inherited_fields) fs)
                       (write_field_output lib) st)))"

definition write_type_scalar :: "codegen \<Rightarrow> gql_type \<Rightarrow> gen_state \<Rightarrow> error + gen_state" where
  "write_type_scalar cg t st =
     (let name = t_name t;
          st1 = (if name \<in> set builtin_types then
                   writer (name @ '' = sgqlc.types.'' @ name) st
                 else if name \<in> set datetime_types then
                   writer (name @ '' = sgqlc.types.datetime.'' @ name) st
                 else
                   writer (''class '' @ name @ ''(sgqlc.types.Scalar):'' @ NL @
                           ''    __schema__ = '' @ schema_name cg @ NL) st)
      in Inr (add_written name (writer (NL @ NL) st1)))"

definition write_type_union :: "codegen \<Rightarrow> gql_type \<Rightarrow> gen_state \<Rightarrow> error + gen_state" where
  "write_type_union cg t st =
     (let name = t_name t in
      case t_possibleTypes t of
        None \<Rightarrow> Inl TypeError
      | Some possible_types \<Rightarrow>
          (let trailing_comma = (if length possible_types = 1 then '','' else [])
           in Inr (add_written name
                (writer
                  (''class '' @ name @ ''(sgqlc.types.Union):'' @ NL @
                   ''    __schema__ = '' @ schema_name cg @ NL @
                   ''    __types__ = ('' @ py_join '', '' (map nr_name possible_types) @
                   trailing_comma @ '')'' @ NL @ NL @ NL)
                  st))))"

definition write_datetime_import :: "codegen \<Rightarrow> gen_state \<Rightarrow> gen_state" where
  "write_datetime_import cg st =
     (if \<not> uses_datetime cg then st else writer (''import sgqlc.types.datetime'' @ NL) st)"

definition write_relay_import :: "codegen \<Rightarrow> gen_state \<Rightarrow> gen_state" where
  "write_relay_import cg st =
     (if \<not> uses_relay cg then st else writer (''import sgqlc.types.relay'' @ NL) st)"

definition write_relay_fixup :: "codegen \<Rightarrow> gen_state \<Rightarrow> gen_state" where
  "write_relay_fixup cg st =
     (if \<not> uses_relay cg then st
      else writer
        (''# Unexport Node/PageInfo, let schema re-declare them'' @ NL @
         schema_name cg @ '' -= sgqlc.types.relay.Node'' @ NL @
         schema_name cg @ '' -= sgqlc.types.relay.PageInfo'' @ NL @ NL @ NL) st)"

definition write_header :: "codegen \<Rightarrow> gen_state \<Rightarrow> gen_state" where
  "write_header cg st =
     write_relay_fixup cg
       (writer (NL @ NL @ schema_name cg @ '' = sgqlc.types.Schema()'' @ NL @ NL @ NL)
         (write_relay_import cg
           (write_datetime_import cg
             (writer (''import sgqlc.types'' @ NL) st))))"

definition write_entry_points :: "codegen \<Rightarrow> gen_state \<Rightarrow> gen_state" where
  "write_entry_points cg st =
     writer
       (schema_name cg @ ''.query_type = '' @ py_str_opt (query_type cg) @ NL @
        schema_name cg @ ''.mutation_type = '' @ py_str_opt (mutation_type cg) @ NL @
        schema_name cg @ ''.subscription_type = '' @ py_str_opt (subscription_type cg) @ NL @ NL)
       (write_banner ''Schema Entry Points'' st)"

subsection \<open>The four phases of \<open>write_types\<close>\<close>

definition mapper_basic ::
  "codegen \<Rightarrow> string \<Rightarrow> (gql_type \<Rightarrow> gen_state \<Rightarrow> error + gen_state) option" where
  "mapper_basic cg kind =
     (if kind = ''ENUM'' then Some (write_type_enum cg)
      else if kind = ''SCALAR'' then Some (write_type_scalar cg)
      else None)"

definition mapper_input_containers ::
  "py_lib \<Rightarrow> codegen \<Rightarrow> string \<Rightarrow> (gql_type \<Rightarrow> gen_state \<Rightarrow> error + gen_state) option" where
  "mapper_input_containers lib cg kind =
     (if kind = ''INPUT_OBJECT'' then Some (write_type_input_object lib cg) else None)"

definition mapper_output_containers ::
  "py_lib \<Rightarrow> codegen \<Rightarrow> string \<Rightarrow> (gql_type \<Rightarrow> gen_state \<Rightarrow> error + gen_state) option" where
  "mapper_output_containers lib cg kind =
     (if kind = ''INTERFACE'' then Some (write_type_interface lib cg)
      else if kind = ''OBJECT'' then Some (write_type_object lib cg)
      else None)"

definition mapper_post ::
  "codegen \<Rightarrow> string \<Rightarrow> (gql_type \<Rightarrow> gen_state \<Rightarrow> error + gen_state) option" where
  "mapper_post cg kind =
     (if kind = ''UNION'' then Some (write_type_union cg) else None)"

text \<open>
  One filtering loop: a type whose kind the mapper knows is written, any other type is
  appended to \<open>remaining\<close>.
\<close>

fun run_phase ::
  "(string \<Rightarrow> (gql_type \<Rightarrow> gen_state \<Rightarrow> error + gen_state) option) \<Rightarrow> gql_type list \<Rightarrow>
   gql_type list \<Rightarrow> gen_state \<Rightarrow> error + (gql_type list \<times> gen_state)" where
  "run_phase mapper [] remaining st = Inr (remaining, st)"
| "run_phase mapper (t # todo) remaining st =
     (case mapper (t_kind t) of
        None \<Rightarrow> run_phase mapper todo (remaining @ [t]) st
      | Some mapped \<Rightarrow>
          (case mapped t st of
             Inl e \<Rightarrow> Inl e
           | Inr st' \<Rightarrow> run_phase mapper todo remaining st'))"

definition phase1 :: "codegen \<Rightarrow> gen_state \<Rightarrow> error + (gql_type list \<times> gen_state)" where
  "phase1 cg st =
     run_phase (mapper_basic cg) (types cg) [] (write_banner ''Scalars and Enumerations'' st)"

definition phase2 ::
  "py_lib \<Rightarrow> codegen \<Rightarrow> gql_type list \<Rightarrow> gen_state \<Rightarrow> error + (gql_type list \<times> gen_state)" where
  "phase2 lib cg todo st =
     run_phase (mapper_input_containers lib cg) todo [] (write_banner ''Input Objects'' st)"

definition phase3 ::
  "py_lib \<Rightarrow> codegen \<Rightarrow> gql_type list \<Rightarrow> gen_state \<Rightarrow> error + (gql_type list \<times> gen_state)" where
  "phase3 lib cg remaining st =
     run_phase (mapper_output_containers lib cg) (list_sort lib depend_cmp remaining) []
       (write_banner ''Output Objects and Interfaces'' st)"

definition phase4 :: "codegen \<Rightarrow> gql_type list \<Rightarrow> gen_state \<Rightarrow> error + (gql_type list \<times> gen_state)" where
  "phase4 cg todo st = run_phase (mapper_post cg) todo [] (write_banner ''Unions'' st)"

text \<open>The first two phases together: what is left for phase 3, and the state there.\<close>

definition phases12 :: "py_lib \<Rightarrow> codegen \<Rightarrow> gen_state \<Rightarrow> error + (gql_type list \<times> gen_state)" where
  "phases12 lib cg st =
     (case phase1 cg st of
        Inl e \<Rightarrow> Inl e
      | Inr (remaining1, st1) \<Rightarrow> phase2 lib cg remaining1 st1)"

definition run_phases :: "py_lib \<Rightarrow> codegen \<Rightarrow> gen_state \<Rightarrow> error + (gql_type list \<times> gen_state)" where
  "run_phases lib cg st =
     (case phases12 lib cg st of
        Inl e \<Rightarrow> Inl e
      | Inr (remaining2, st2) \<Rightarrow>
          (case phase3 lib cg remaining2 st2 of
             Inl e \<Rightarrow> Inl e
           | Inr (remaining3, st3) \<Rightarrow> phase4 cg remaining3 st3))"

text \<open>\<open>write_types\<close>: the four phases, then \<open>assert not remaining\<close>.\<close>

definition write_types :: "py_lib \<Rightarrow> codegen \<Rightarrow> gen_state \<Rightarrow> error + gen_state" where
  "write_types lib cg st =
     (case run_phases lib cg st of
        Inl e \<Rightarrow> Inl e
      | Inr (remaining4, st4) \<Rightarrow>
          if remaining4 \<noteq> [] then Inl (AssertionError None) else Inr st4)"

text \<open>\<open>CodeGen.write\<close>.\<close>

definition CodeGen_write :: "py_lib \<Rightarrow> codegen \<Rightarrow> gen_state \<Rightarrow> error + gen_state" where
  "CodeGen_write lib cg st =
     (case write_types lib cg (write_header cg st) of
        Inl e \<Rightarrow> Inl e
      | Inr st' \<Rightarrow> Inr (write_entry_points cg st'))"

subsection \<open>The library for the worked examples\<close>

text \<open>
  \<open>list.sort\<close> as CPython runs it on a list of fewer than 64 elements: \<open>count_run\<close>
  finds the run the list starts with (non-descending, or strictly descending and then
  reversed), and \<open>binarysort\<close> inserts every later element into the sorted part at
  the place a binary search gives. The only comparison is \<open>lt\<close>; with
  \<open>cmp_to_key\<close> it is \<open>cmp x y < 0\<close>.
\<close>

fun run_asc :: "('a \<Rightarrow> 'a \<Rightarrow> bool) \<Rightarrow> 'a \<Rightarrow> 'a list \<Rightarrow> nat" where
  "run_asc lt prev [] = 0"
| "run_asc lt prev (x # xs) = (if lt x prev then 0 else Suc (run_asc lt x xs))"

fun run_desc :: "('a \<Rightarrow> 'a \<Rightarrow> bool) \<Rightarrow> 'a \<Rightarrow> 'a list \<Rightarrow> nat" where
  "run_desc lt prev [] = 0"
| "run_desc lt prev (x # xs) = (if lt x prev then Suc (run_desc lt x xs) else 0)"

fun count_run :: "('a \<Rightarrow> 'a \<Rightarrow> bool) \<Rightarrow> 'a list \<Rightarrow> nat \<times> bool" where
  "count_run lt (x0 # x1 # xs) =
     (if lt x1 x0 then (2 + run_desc lt x1 xs, True) else (2 + run_asc lt x1 xs, False))"
| "count_run lt xs = (length xs, False)"

function bin_pos :: "('a \<Rightarrow> 'a \<Rightarrow> bool) \<Rightarrow> 'a \<Rightarrow> 'a list \<Rightarrow> nat \<Rightarrow> nat \<Rightarrow> nat" where
  "bin_pos lt pivot ys l r =
     (if l < r then
        (let p = l + (r - l) div 2
         in if lt pivot (ys ! p) then bin_pos lt pivot ys l p
            else bin_pos lt pivot ys (p + 1) r)
      else l)"
  by pat_completeness auto
termination
  by (relation "measure (\<lambda>(lt, pivot, ys, l, r). r - l)") auto

declare bin_pos.simps [simp del]

definition bin_insert :: "('a \<Rightarrow> 'a \<Rightarrow> bool) \<Rightarrow> 'a list \<Rightarrow> 'a \<Rightarrow> 'a list" where
  "bin_insert lt ys pivot =
     (let l = bin_pos lt pivot ys 0 (length ys) in take l ys @ pivot # drop l ys)"

definition binarysort :: "('a \<Rightarrow> 'a \<Rightarrow> bool) \<Rightarrow> 'a list \<Rightarrow> 'a list \<Rightarrow> 'a list" where
  "binarysort lt run rest = foldl (bin_insert lt) run rest"

definition py_sort :: "('a \<Rightarrow> 'a \<Rightarrow> bool) \<Rightarrow> 'a list \<Rightarrow> 'a list" where
  "py_sort lt xs =
     (let n = fst (count_run lt xs);
          run = (if snd (count_run lt xs) then rev (take n xs) else take n xs)
      in binarysort lt run (drop n xs))"

text \<open>
  The parser on the literals of the worked examples only; any other text is taken
  as a syntax error.
\<close>

definition example_literals :: "(string \<times> ast_value) list" where
  "example_literals =
     [(''42'', IntValue ''42''),
      (''3.14'', FloatValue ''3.14''),
      ([CHR 0x22, CHR ''h'', CHR ''i'', CHR 0x22], StringValue ''hi''),
      (''true'', BooleanValue True),
      (''null'', NullValue),
      (''[1,2,3]'', ListValue [IntValue ''1'', IntValue ''2'', IntValue ''3'']),
      (''{a: 1, b: '' @ [CHR 0x22, CHR ''x'', CHR 0x22] @ ''}'',
         ObjectValue [(''a'', IntValue ''1''), (''b'', StringValue ''x'')]),
      (''SOME_ENUM_VALUE'', EnumValue ''SOME_ENUM_VALUE''),
      (''false'', BooleanValue False),
      (''[true]'', ListValue [BooleanValue True]),
      (''[1, true, 2]'', ListValue [IntValue ''1'', BooleanValue True, IntValue ''2'']),
      (''[null]'', ListValue [NullValue]),
      (''{a: true}'', ObjectValue [(''a'', BooleanValue True)])]"

definition example_lib :: py_lib where
  "example_lib =
     \<lparr>list_sort = (\<lambda>cmp. py_sort (\<lambda>x y. cmp x y < 0)),
      to_python_name = (\<lambda>n. n),
      parse_graphql_value =
        (\<lambda>s. case map_of example_literals s of
                None \<Rightarrow> Inl GraphQLSyntaxError
              | Some v \<Rightarrow> Inr v),
      float_repr = (\<lambda>s. s),
      node_repr = (\<lambda>n. ''<node>'')\<rparr>"

text \<open>The library permutes what it sorts.\<close>

definition sort_permutes :: "py_lib \<Rightarrow> bool" where
  "sort_permutes lib = (\<forall>cmp xs. mset (list_sort lib cmp xs) = mset xs)"

section \<open>Notions that the properties are stated with\<close>

text \<open>
  A chunk of the output declares the name \<open>n\<close> when it starts as the class statement
  or the alias assignment of \<open>n\<close> does.
\<close>

definition is_decl_of :: "string \<Rightarrow> string \<Rightarrow> bool" where
  "is_decl_of n chunk =
     (prefix (''class '' @ n @ ''('') chunk \<or> prefix (n @ '' = sgqlc.types.'') chunk)"

text \<open>Every name in \<open>written_types\<close> has its declaration in the output.\<close>

definition declared_inv :: "gen_state \<Rightarrow> bool" where
  "declared_inv st = (\<forall>n \<in> written_types st. \<exists>c \<in> set (out st). is_decl_of n c)"

text \<open>
  A step from \<open>st\<close> to \<open>st'\<close> that only appends to the output and only adds names
  whose declaration is in the output afterwards.
\<close>

definition grows :: "gen_state \<Rightarrow> gen_state \<Rightarrow> bool" where
  "grows st st' =
     (prefix (out st) (out st') \<and> written_types st \<subseteq> written_types st' \<and>
      (\<forall>n \<in> written_types st' - written_types st. \<exists>c \<in> set (out st'). is_decl_of n c))"

text \<open>A step that appends to the output and leaves \<open>written_types\<close> as it is.\<close>

definition only_writes :: "gen_state \<Rightarrow> gen_state \<Rightarrow> bool" where
  "only_writes st st' = (prefix (out st) (out st') \<and> written_types st' = written_types st)"

text \<open>
  A step that declares \<open>n\<close>: the output grows by chunks of which the first declares
  \<open>n\<close>, and \<open>n\<close> is the one name added.
\<close>

definition declares :: "string \<Rightarrow> gen_state \<Rightarrow> gen_state \<Rightarrow> bool" where
  "declares n st st' =
     (\<exists>c cs. out st' = out st @ c # cs \<and> is_decl_of n c \<and>
        written_types st' = insert n (written_types st))"

text \<open>The six kinds that the mappers of \<open>write_types\<close> know.\<close>

definition claimed_kinds :: "string list" where
  "claimed_kinds = [''ENUM'', ''SCALAR'', ''INPUT_OBJECT'', ''INTERFACE'', ''OBJECT'', ''UNION'']"

text \<open>How many of the four mappers have an entry for a kind.\<close>

definition claim_count :: "py_lib \<Rightarrow> codegen \<Rightarrow> string \<Rightarrow> nat" where
  "claim_count lib cg kind =
     length (filter (\<lambda>m. m kind \<noteq> None)
       [mapper_basic cg, mapper_input_containers lib cg,
        mapper_output_containers lib cg, mapper_post cg])"

text \<open>
  The field names of the interfaces that a type implements, each interface looked up
  by name in \<open>type_by_name\<close>.
\<close>

definition iface_field_names :: "codegen \<Rightarrow> named_ref \<Rightarrow> string list" where
  "iface_field_names cg iface =
     (case type_by_name cg (nr_name iface) of
        None \<Rightarrow> []
      | Some it \<Rightarrow> map field_name (or_empty (t_fields it)))"

definition inherited_names :: "codegen \<Rightarrow> gql_type \<Rightarrow> string list" where
  "inherited_names cg t = concat (map (iface_field_names cg) (or_empty (t_interfaces t)))"

text \<open>Two types that implement each other.\<close>

definition mutual_impl :: "gql_type \<Rightarrow> gql_type \<Rightarrow> bool" where
  "mutual_impl a b =
     (has_iface (or_empty (t_interfaces a)) (t_name b) \<and>
      has_iface (or_empty (t_interfaces b)) (t_name a))"

section \<open>Worked examples\<close>

definition string_ref :: type_ref where
  "string_ref = TypeRef ''SCALAR'' (Some ''String'') None"

definition mk_field :: "string \<Rightarrow> field" where
  "mk_field n = \<lparr>field_name = n, field_type = string_ref, args = []\<rparr>"

definition mk_type :: "string \<Rightarrow> string \<Rightarrow> string list \<Rightarrow> string list \<Rightarrow> gql_type" where
  "mk_type k n fs is =
     \<lparr>t_kind = k, t_name = n, t_fields = Some (map mk_field fs), t_inputFields = None,
      t_interfaces = Some (map NamedRef is), t_enumValues = None, t_possibleTypes = None\<rparr>"

section \<open>The document shapes of \<open>load_schema\<close>\<close>

text \<open>
  The three shapes as the documentation words them, by the presence of a field: a
  \<open>types\<close> field directly, a \<open>__schema\<close> field under an object \<open>data\<close>, or a
  \<open>__schema\<close> field directly.
\<close>

definition has_shape_by_presence :: "json \<Rightarrow> bool" where
  "has_shape_by_presence doc =
     (case doc of
        JObject kvs \<Rightarrow>
          map_of kvs ''types'' \<noteq> None \<or>
          (case map_of kvs ''data'' of
             Some (JObject d) \<Rightarrow> map_of d ''__schema'' \<noteq> None
           | _ \<Rightarrow> False) \<or>
          map_of kvs ''__schema'' \<noteq> None
      | _ \<Rightarrow> False)"

text \<open>The value of a field of a document; \<open>null\<close> when there is none.\<close>

definition json_field :: "json \<Rightarrow> string \<Rightarrow> json" where
  "json_field doc k = (case doc of JObject kvs \<Rightarrow> dict_get kvs k JNull | _ \<Rightarrow> JNull)"

definition is_object :: "json \<Rightarrow> bool" where
  "is_object doc = (case doc of JObject kvs \<Rightarrow> True | _ \<Rightarrow> False)"

text \<open>The three shapes by the truth value of what the field holds.\<close>

definition shape_types :: "json \<Rightarrow> bool" where
  "shape_types doc = truthy (json_field doc ''types'')"

definition shape_data_schema :: "json \<Rightarrow> bool" where
  "shape_data_schema doc = truthy (json_field (json_field doc ''data'') ''__schema'')"

definition shape_schema :: "json \<Rightarrow> bool" where
  "shape_schema doc = truthy (json_field doc ''__schema'')"

text \<open>
  The documents on which \<open>load_schema\<close> never calls \<open>get\<close> on something that is not an
  object: no object at all, a true \<open>types\<close>, or a \<open>data\<close> that is absent or an object.
\<close>

definition data_is_object_or_absent :: "json \<Rightarrow> bool" where
  "data_is_object_or_absent doc =
     (case doc of
        JObject kvs \<Rightarrow>
          (case map_of kvs ''data'' of
             None \<Rightarrow> True
           | Some (JObject d) \<Rightarrow> True
           | Some other \<Rightarrow> False)
      | _ \<Rightarrow> True)"

definition is_format_error :: "error + json \<Rightarrow> bool" where
  "is_format_error r = (case r of Inl (SystemExit msg) \<Rightarrow> True | _ \<Rightarrow> False)"

definition doc_empty_types :: json where
  "doc_empty_types = JObject [(''types'', JArray [])]"

definition doc_null_data :: json where
  "doc_null_data = JObject [(''data'', JNull), (''errors'', JArray [JString ''boom''])]"

definition doc_envelope :: json where
  "doc_envelope =
     JObject [(''data'', JObject [(''__schema'', JObject [(''types'', JArray [JNull])])])]"

section \<open>Wrapped type references\<close>

text \<open>
  A reference under a stack of wrappers, outermost first (\<open>True\<close> for \<open>NON_NULL\<close>,
  \<open>False\<close> for \<open>LIST\<close>), and the text that wraps a resolved reference the same way.
\<close>

fun wrap_ref :: "bool list \<Rightarrow> type_ref \<Rightarrow> type_ref" where
  "wrap_ref [] t = t"
| "wrap_ref (w # ws) t =
     TypeRef (if w then ''NON_NULL'' else ''LIST'') None (Some (wrap_ref ws t))"

fun wrap_text :: "bool list \<Rightarrow> string \<Rightarrow> string" where
  "wrap_text [] r = r"
| "wrap_text (w # ws) r =
     (if w then ''sgqlc.types.non_null('' else ''sgqlc.types.list_of('') @ wrap_text ws r @ '')''"

text \<open>The characters of a GraphQL name: letters, digits and the underscore.\<close>

definition is_name_char :: "char \<Rightarrow> bool" where
  "is_name_char c =
     (let n = (of_char c :: nat) in
      (48 \<le> n \<and> n \<le> 57) \<or> (65 \<le> n \<and> n \<le> 90) \<or> n = 95 \<or> (97 \<le> n \<and> n \<le> 122))"

section \<open>The native value of a literal, as the documentation describes it\<close>

text \<open>
  The text of an integer token is an optional minus sign and at least one decimal
  digit; \<open>int_literal\<close> is the integer it writes.
\<close>

definition is_digit :: "char \<Rightarrow> bool" where
  "is_digit c = (48 \<le> (of_char c :: nat) \<and> (of_char c :: nat) \<le> 57)"

definition is_int_token :: "string \<Rightarrow> bool" where
  "is_int_token s =
     (case s of
        [] \<Rightarrow> False
      | c # cs \<Rightarrow> if c = CHR ''-'' then cs \<noteq> [] \<and> list_all is_digit cs else list_all is_digit s)"

definition digits_value :: "string \<Rightarrow> nat" where
  "digits_value s = foldl (\<lambda>a c. 10 * a + (of_char c - 48)) 0 s"

definition int_literal :: "string \<Rightarrow> int" where
  "int_literal s =
     (case s of
        [] \<Rightarrow> 0
      | c # cs \<Rightarrow> if c = CHR ''-'' then - int (digits_value cs) else int (digits_value s))"

text \<open>
  A well-formed literal: integer nodes hold integer tokens and the fields of an
  object literal have distinct names, at every depth.
\<close>

fun well_formed :: "ast_value \<Rightarrow> bool"
  and well_formed_values :: "ast_value list \<Rightarrow> bool"
  and well_formed_fields :: "(string \<times> ast_value) list \<Rightarrow> bool"
where
  "well_formed (IntValue s) = is_int_token s"
| "well_formed (FloatValue s) = True"
| "well_formed (StringValue s) = True"
| "well_formed (BooleanValue b) = True"
| "well_formed (EnumValue s) = True"
| "well_formed (ListValue vs) = well_formed_values vs"
| "well_formed (ObjectValue fs) = (distinct (map fst fs) \<and> well_formed_fields fs)"
| "well_formed NullValue = True"
| "well_formed_values [] = True"
| "well_formed_values (v # vs) = (well_formed v \<and> well_formed_values vs)"
| "well_formed_fields [] = True"
| "well_formed_fields (f # fs) = (well_formed (snd f) \<and> well_formed_fields fs)"

text \<open>
  A literal without a null or boolean node at any depth: every node of it is one
  whose \<open>leave\<close> method returns a replacement.
\<close>

fun no_null_or_bool :: "ast_value \<Rightarrow> bool"
  and no_null_or_bool_values :: "ast_value list \<Rightarrow> bool"
  and no_null_or_bool_fields :: "(string \<times> ast_value) list \<Rightarrow> bool"
where
  "no_null_or_bool (IntValue s) = True"
| "no_null_or_bool (FloatValue s) = True"
| "no_null_or_bool (StringValue s) = True"
| "no_null_or_bool (BooleanValue b) = False"
| "no_null_or_bool (EnumValue s) = True"
| "no_null_or_bool (ListValue vs) = no_null_or_bool_values vs"
| "no_null_or_bool (ObjectValue fs) = no_null_or_bool_fields fs"
| "no_null_or_bool NullValue = False"
| "no_null_or_bool_values [] = True"
| "no_null_or_bool_values (v # vs) = (no_null_or_bool v \<and> no_null_or_bool_values vs)"
| "no_null_or_bool_fields [] = True"
| "no_null_or_bool_fields (f # fs) = (no_null_or_bool (snd f) \<and> no_null_or_bool_fields fs)"

text \<open>
  The structurally equivalent native value: integers, floats, strings, booleans and
  null as themselves, an enum value as its bare name, a list as the list of the
  values of its elements, an object as the mapping of its fields in written order.
\<close>

fun native_value :: "ast_value \<Rightarrow> pyval"
  and native_values :: "ast_value list \<Rightarrow> pyval list"
  and native_fields :: "(string \<times> ast_value) list \<Rightarrow> (string \<times> pyval) list"
where
  "native_value (IntValue s) = PInt (int_literal s)"
| "native_value (FloatValue s) = PFloat s"
| "native_value (StringValue s) = PStr s"
| "native_value (BooleanValue b) = PBool b"
| "native_value (EnumValue s) = PStr s"
| "native_value (ListValue vs) = PList (native_values vs)"
| "native_value (ObjectValue fs) = PDict (native_fields fs)"
| "native_value NullValue = PNone"
| "native_values [] = []"
| "native_values (v # vs) = native_value v # native_values vs"
| "native_fields [] = []"
| "native_fields (f # fs) = (fst f, native_value (snd f)) # native_fields fs"

section \<open>A schema with an interface that implements an interface\<close>

text \<open>
  Interface \<open>A\<close>; interface \<open>Z\<close> implements \<open>A\<close>; object \<open>D\<close> implements \<open>Z\<close> and
  \<open>A\<close>; object \<open>E\<close> implements \<open>A\<close>.
\<close>

definition type_A :: gql_type where
  "type_A = mk_type ''INTERFACE'' ''A'' [''a''] []"

definition type_Z :: gql_type where
  "type_Z = mk_type ''INTERFACE'' ''Z'' [''a'', ''z''] [''A'']"

definition type_D :: gql_type where
  "type_D = mk_type ''OBJECT'' ''D'' [''a'', ''z'', ''d''] [''Z'', ''A'']"

definition type_E :: gql_type where
  "type_E = mk_type ''OBJECT'' ''E'' [''a'', ''e''] [''A'']"

definition chain_schema :: schema where
  "chain_schema =
     \<lparr>s_types = [type_Z, type_E, type_D, type_A],
      s_queryType = Some (NamedRef ''D''), s_mutationType = None, s_subscriptionType = None\<rparr>"

text \<open>The same schema without \<open>E\<close>.\<close>

definition short_schema :: schema where
  "short_schema =
     \<lparr>s_types = [type_Z, type_D, type_A],
      s_queryType = Some (NamedRef ''D''), s_mutationType = None, s_subscriptionType = None\<rparr>"

text \<open>The short schema with one more type, of a kind that no mapper knows.\<close>

definition odd_schema :: schema where
  "odd_schema =
     \<lparr>s_types = [type_Z, type_D, type_A, mk_type ''DIRECTIVE'' ''W'' [] []],
      s_queryType = Some (NamedRef ''D''), s_mutationType = None, s_subscriptionType = None\<rparr>"

section \<open>The text that fields and arguments are written as\<close>

text \<open>A text in single quotes, as \<open>repr\<close> prints a plain name.\<close>

definition quoted :: "string \<Rightarrow> string" where
  "quoted s = CHR 0x27 # s @ [CHR 0x27]"

text \<open>
  The line of an argument, given its resolved type reference and the text of its
  default.
\<close>

definition arg_line_with :: "py_lib \<Rightarrow> arg \<Rightarrow> string \<Rightarrow> string \<Rightarrow> string" where
  "arg_line_with lib a tref d =
     ''        ('' @ py_repr_str (to_python_name lib (arg_name a)) @
     '', sgqlc.types.Arg('' @ tref @ '', graphql_name='' @ py_repr_str (arg_name a) @
     '', default='' @ d @ '')),'' @ NL"

text \<open>
  The lines of the arguments of a field and the chunks of a field, for the written
  names \<open>W\<close> and the sibling names \<open>S\<close>; the first error met is the result.
\<close>

definition arg_line :: "py_lib \<Rightarrow> string set \<Rightarrow> string set \<Rightarrow> arg \<Rightarrow> error + string" where
  "arg_line lib W S a =
     (case get_type_ref W (arg_type a) S of
        Inl e \<Rightarrow> Inl e
      | Inr tref \<Rightarrow>
          (case arg_default lib (defaultValue a) of
             Inl e \<Rightarrow> Inl e
           | Inr d \<Rightarrow> Inr (arg_line_with lib a tref d)))"

fun arg_lines :: "py_lib \<Rightarrow> string set \<Rightarrow> string set \<Rightarrow> arg list \<Rightarrow> error + string list" where
  "arg_lines lib W S [] = Inr []"
| "arg_lines lib W S (a # as) =
     (case arg_line lib W S a of
        Inl e \<Rightarrow> Inl e
      | Inr l \<Rightarrow> (case arg_lines lib W S as of Inl e \<Rightarrow> Inl e | Inr ls \<Rightarrow> Inr (l # ls)))"

definition field_line :: "py_lib \<Rightarrow> field \<Rightarrow> string \<Rightarrow> string" where
  "field_line lib fld tref =
     ''    '' @ to_python_name lib (field_name fld) @ '' = sgqlc.types.Field('' @ tref @
     '', graphql_name='' @ py_repr_str (field_name fld)"

definition field_chunks :: "py_lib \<Rightarrow> string set \<Rightarrow> string set \<Rightarrow> field \<Rightarrow> error + string list" where
  "field_chunks lib W S fld =
     (case get_type_ref W (field_type fld) S of
        Inl e \<Rightarrow> Inl e
      | Inr tref \<Rightarrow>
          if args fld \<noteq> [] then
            (case arg_lines lib W S (args fld) of
               Inl e \<Rightarrow> Inl e
             | Inr ls \<Rightarrow>
                 Inr ([field_line lib fld tref, '', args=sgqlc.types.ArgDict(('' @ NL] @ ls @
                      [''))'' @ NL @ ''    '', '')'' @ NL]))
          else Inr [field_line lib fld tref, '')'' @ NL])"

fun fields_chunks ::
  "py_lib \<Rightarrow> string set \<Rightarrow> string set \<Rightarrow> field list \<Rightarrow> error + string list" where
  "fields_chunks lib W S [] = Inr []"
| "fields_chunks lib W S (fld # fs) =
     (case field_chunks lib W S fld of
        Inl e \<Rightarrow> Inl e
      | Inr cs \<Rightarrow>
          (case fields_chunks lib W S fs of Inl e \<Rightarrow> Inl e | Inr rest \<Rightarrow> Inr (cs @ rest)))"

text \<open>
  The own fields of an object: its declared fields without those whose name is a
  field name of an implemented interface. The class statement of an object that
  declares the fields \<open>own\<close>.
\<close>

definition own_fields_of :: "codegen \<Rightarrow> gql_type \<Rightarrow> field list \<Rightarrow> field list" where
  "own_fields_of cg t fs = filter (\<lambda>fld. field_name fld \<notin> set (inherited_names cg t)) fs"

definition object_header :: "py_lib \<Rightarrow> codegen \<Rightarrow> gql_type \<Rightarrow> field list \<Rightarrow> string" where
  "object_header lib cg t own =
     ''class '' @ t_name t @ ''('' @
     py_join '', ''
       ((if uses_relay cg \<and> suffix ''Connection'' (t_name t)
         then ''sgqlc.types.relay.Connection'' else ''sgqlc.types.Type'') #
        map nr_name (or_empty (t_interfaces t))) @
     ''):'' @ NL @
     ''    __schema__ = '' @ schema_name cg @ NL @
     ''    __field_names__ = '' @
       py_repr_tuple (map (\<lambda>fld. to_python_name lib (field_name fld)) own) @ NL"



text \<open>A generator that writes one chunk, for the examples of \<open>main\<close>.\<close>

definition one_chunk_gen :: "json \<Rightarrow> error option \<times> string list" where
  "one_chunk_gen sch = (None, [''import sgqlc.types''])"


section \<open>The comparator is antisymmetric unless two types implement each other\<close>

lemma depend_cmp_flip:
  assumes "\<not> mutual_impl a b"
  shows "depend_cmp a b = - depend_cmp b a"
  using assms
  by (cases "t_interfaces a"; cases "t_interfaces b")
     (auto simp: depend_cmp_def mutual_impl_def Let_def)

lemma depend_cmp_cycle:
  "mutual_impl (mk_type ''INTERFACE'' ''A'' [] [''B'']) (mk_type ''INTERFACE'' ''B'' [] [''A'']) \<and>
   depend_cmp (mk_type ''INTERFACE'' ''A'' [] [''B'']) (mk_type ''INTERFACE'' ''B'' [] [''A''])
     \<noteq> - depend_cmp (mk_type ''INTERFACE'' ''B'' [] [''A'']) (mk_type ''INTERFACE'' ''A'' [] [''B''])"
  by (simp add: depend_cmp_def mutual_impl_def mk_type_def)

text \<open>
  C10. For every pair of types that do not implement each other,
  \<open>depend_cmp a b\<close> is the negation of \<open>depend_cmp b a\<close>; for a pair of types that
  implement each other the equality fails.
\<close>

theorem depend_cmp_antisymmetric:
  "(\<forall>a b. \<not> mutual_impl a b \<longrightarrow> depend_cmp a b = - depend_cmp b a) \<and>
   (\<exists>a b. mutual_impl a b \<and> depend_cmp a b \<noteq> - depend_cmp b a)"
  using depend_cmp_flip depend_cmp_cycle by blast

theorem depend_cmp_antisymmetric_witness:
  "\<not> mutual_impl (mk_type ''OBJECT'' ''X'' [] [''I'']) (mk_type ''INTERFACE'' ''I'' [] [''J'']) \<and>
   depend_cmp (mk_type ''OBJECT'' ''X'' [] [''I'']) (mk_type ''INTERFACE'' ''I'' [] [''J'']) = 1 \<and>
   depend_cmp (mk_type ''INTERFACE'' ''I'' [] [''J'']) (mk_type ''OBJECT'' ''X'' [] [''I'']) = - 1"
proof -
  have h: "\<not> mutual_impl (mk_type ''OBJECT'' ''X'' [] [''I'']) (mk_type ''INTERFACE'' ''I'' [] [''J''])"
    by (simp add: mutual_impl_def mk_type_def)
  have v: "depend_cmp (mk_type ''OBJECT'' ''X'' [] [''I'']) (mk_type ''INTERFACE'' ''I'' [] [''J'']) = 1"
    by (simp add: depend_cmp_def mk_type_def)
  from depend_cmp_antisymmetric h
  have "depend_cmp (mk_type ''OBJECT'' ''X'' [] [''I'']) (mk_type ''INTERFACE'' ''I'' [] [''J''])
        = - depend_cmp (mk_type ''INTERFACE'' ''I'' [] [''J'']) (mk_type ''OBJECT'' ''X'' [] [''I''])"
    by blast
  with h v show ?thesis by simp
qed

section \<open>Loading the schema document\<close>

lemma load_schema_non_object:
  "\<not> is_object doc \<Longrightarrow> load_schema doc = Inl (SystemExit ''schema must be a JSON object'')"
  by (cases doc) (simp_all add: load_schema_def is_object_def)

lemma load_schema_types:
  "shape_types doc \<Longrightarrow> is_object doc \<Longrightarrow> load_schema doc = Inr doc"
  by (cases doc) (simp_all add: load_schema_def is_object_def shape_types_def json_field_def)

lemma load_schema_rest:
  assumes "is_object doc" "\<not> shape_types doc" "data_is_object_or_absent doc"
  shows "load_schema doc =
     (if shape_data_schema doc then Inr (json_field (json_field doc ''data'') ''__schema'')
      else if shape_schema doc then Inr (json_field doc ''__schema'')
      else Inl (SystemExit ''schema must be introspection object or query result''))"
  using assms
  by (cases doc)
     (auto simp: load_schema_def is_object_def shape_types_def json_field_def
        shape_data_schema_def shape_schema_def data_is_object_or_absent_def dict_get_def
        split: option.splits json.splits)

lemma main_load_failure:
  assumes "load_schema doc = Inl e"
  shows "main gen out_file in_fname out_fname doc =
           (Some e, case out_file of
                      PathArg p \<Rightarrow> [Open p]
                    | StdoutArg \<Rightarrow> []
                    | NoOutArg \<Rightarrow>
                        if in_fname = ''<stdin>'' then []
                        else [Print (''Writing to: '' @ out_fname @ [CHR 0x0A]), Open out_fname])"
    and "\<forall>c. Write c \<notin> set (snd (main gen out_file in_fname out_fname doc))"
  using assms
  by (auto simp: main_def events_before_load_def Let_def split: out_arg.splits)

text \<open>
  C5, as the code has it. The three shapes are matched by the truth value of what
  the field holds. Take a document that is no object at all, or whose \<open>types\<close> is
  true, or whose \<open>data\<close> is absent or an object. Then \<open>load_schema\<close> fails with the
  schema-format error exactly when the document is not an object or none of the
  three shapes match; otherwise it returns the document itself for the first shape,
  the value under \<open>data.__schema\<close> for the second and the value under \<open>__schema\<close>
  for the third. When \<open>load_schema\<close> fails on it, \<open>main\<close> ends with that error, the
  generator has not run and nothing was written to the output: all that has
  happened is that the output file, unless it is standard output, was opened for
  writing (after its path was printed, when \<open>main\<close> derived it).
\<close>

theorem load_schema_truthy_shapes:
  assumes "shape_types doc \<or> data_is_object_or_absent doc"
  shows "(is_format_error (load_schema doc) \<longleftrightarrow>
            \<not> is_object doc \<or> \<not> (shape_types doc \<or> shape_data_schema doc \<or> shape_schema doc)) \<and>
         (is_object doc \<and> shape_types doc \<longrightarrow> load_schema doc = Inr doc) \<and>
         (is_object doc \<and> \<not> shape_types doc \<and> shape_data_schema doc \<longrightarrow>
            load_schema doc = Inr (json_field (json_field doc ''data'') ''__schema'')) \<and>
         (is_object doc \<and> \<not> shape_types doc \<and> \<not> shape_data_schema doc \<and> shape_schema doc \<longrightarrow>
            load_schema doc = Inr (json_field doc ''__schema'')) \<and>
         (\<forall>e gen out_file in_fname out_fname.
            load_schema doc = Inl e \<longrightarrow>
              main gen out_file in_fname out_fname doc =
                (Some e, case out_file of
                           PathArg p \<Rightarrow> [Open p]
                         | StdoutArg \<Rightarrow> []
                         | NoOutArg \<Rightarrow>
                             if in_fname = ''<stdin>'' then []
                             else [Print (''Writing to: '' @ out_fname @ [CHR 0x0A]),
                                   Open out_fname]) \<and>
              (\<forall>c. Write c \<notin> set (snd (main gen out_file in_fname out_fname doc))))"
proof -
  have m: "\<forall>e gen out_file in_fname out_fname.
            load_schema doc = Inl e \<longrightarrow>
              main gen out_file in_fname out_fname doc =
                (Some e, case out_file of
                           PathArg p \<Rightarrow> [Open p]
                         | StdoutArg \<Rightarrow> []
                         | NoOutArg \<Rightarrow>
                             if in_fname = ''<stdin>'' then []
                             else [Print (''Writing to: '' @ out_fname @ [CHR 0x0A]),
                                   Open out_fname]) \<and>
              (\<forall>c. Write c \<notin> set (snd (main gen out_file in_fname out_fname doc)))"
    using main_load_failure by blast
  have core: "(is_format_error (load_schema doc) \<longleftrightarrow>
            \<not> is_object doc \<or> \<not> (shape_types doc \<or> shape_data_schema doc \<or> shape_schema doc)) \<and>
         (is_object doc \<and> shape_types doc \<longrightarrow> load_schema doc = Inr doc) \<and>
         (is_object doc \<and> \<not> shape_types doc \<and> shape_data_schema doc \<longrightarrow>
            load_schema doc = Inr (json_field (json_field doc ''data'') ''__schema'')) \<and>
         (is_object doc \<and> \<not> shape_types doc \<and> \<not> shape_data_schema doc \<and> shape_schema doc \<longrightarrow>
            load_schema doc = Inr (json_field doc ''__schema''))"
  proof (cases "is_object doc")
    case False
    then show ?thesis
      by (simp add: load_schema_non_object is_format_error_def)
  next
    case obj: True
    show ?thesis
    proof (cases "shape_types doc")
      case True
      with obj show ?thesis
        by (simp add: load_schema_types is_format_error_def)
    next
      case False
      with assms have "data_is_object_or_absent doc" by simp
      from load_schema_rest[OF obj False this] obj False show ?thesis
        by (simp add: is_format_error_def)
    qed
  qed
  from core m show ?thesis by blast
qed

theorem load_schema_truthy_shapes_witness:
  "(shape_types doc_envelope \<or> data_is_object_or_absent doc_envelope) \<and>
   is_object doc_envelope \<and> \<not> shape_types doc_envelope \<and> shape_data_schema doc_envelope \<and>
   load_schema doc_envelope = Inr (JObject [(''types'', JArray [JNull])]) \<and>
   \<not> is_format_error (load_schema doc_envelope) \<and>
   (shape_types doc_empty_types \<or> data_is_object_or_absent doc_empty_types) \<and>
   load_schema doc_empty_types =
     Inl (SystemExit ''schema must be introspection object or query result'') \<and>
   main one_chunk_gen NoOutArg ''api.json'' ''api.py'' doc_empty_types =
     (Some (SystemExit ''schema must be introspection object or query result''),
      [Print (''Writing to: api.py'' @ [CHR 0x0A]), Open ''api.py'']) \<and>
   main one_chunk_gen NoOutArg ''api.json'' ''api.py'' doc_envelope =
     (None, [Print (''Writing to: api.py'' @ [CHR 0x0A]), Open ''api.py'',
             Write ''import sgqlc.types'', Close])"
proof -
  have h: "shape_types doc_envelope \<or> data_is_object_or_absent doc_envelope"
    by (simp add: doc_envelope_def data_is_object_or_absent_def)
  have f: "is_object doc_envelope" "\<not> shape_types doc_envelope" "shape_data_schema doc_envelope"
    "json_field (json_field doc_envelope ''data'') ''__schema'' = JObject [(''types'', JArray [JNull])]"
    by (simp_all add: doc_envelope_def is_object_def shape_types_def shape_data_schema_def
        json_field_def dict_get_def)
  from load_schema_truthy_shapes[OF h] f h
  have a: "load_schema doc_envelope = Inr (JObject [(''types'', JArray [JNull])])"
    by simp
  have h2: "shape_types doc_empty_types \<or> data_is_object_or_absent doc_empty_types"
    by (simp add: doc_empty_types_def data_is_object_or_absent_def)
  have l2: "load_schema doc_empty_types =
     Inl (SystemExit ''schema must be introspection object or query result'')"
    by (simp add: doc_empty_types_def load_schema_def dict_get_def)
  from load_schema_truthy_shapes[OF h2] l2
  have b: "main one_chunk_gen NoOutArg ''api.json'' ''api.py'' doc_empty_types =
     (Some (SystemExit ''schema must be introspection object or query result''),
      [Print (''Writing to: api.py'' @ [CHR 0x0A]), Open ''api.py''])"
    by simp
  have c: "main one_chunk_gen NoOutArg ''api.json'' ''api.py'' doc_envelope =
     (None, [Print (''Writing to: api.py'' @ [CHR 0x0A]), Open ''api.py'',
             Write ''import sgqlc.types'', Close])"
    by (simp add: main_def a events_before_load_def one_chunk_gen_def)
  from h f a h2 l2 b c show ?thesis
    by (simp add: is_format_error_def)
qed

text \<open>
  C5, as the documentation words it, fails twice. An object whose \<open>types\<close> field is
  an empty list has the first shape by presence and is rejected. An object whose
  \<open>data\<close> is \<open>null\<close> (the answer of a server that reports errors) has none of the
  shapes, and \<open>load_schema\<close> ends in an attribute error, not in the schema-format
  error.
\<close>

theorem load_schema_counterexample:
  "has_shape_by_presence doc_empty_types \<and>
   load_schema doc_empty_types =
     Inl (SystemExit ''schema must be introspection object or query result'') \<and>
   is_object doc_null_data \<and> \<not> has_shape_by_presence doc_null_data \<and>
   \<not> (shape_types doc_null_data \<or> shape_data_schema doc_null_data \<or> shape_schema doc_null_data) \<and>
   load_schema doc_null_data = Inl AttributeError \<and>
   \<not> is_format_error (load_schema doc_null_data)"
  by (simp add: doc_empty_types_def doc_null_data_def has_shape_by_presence_def load_schema_def
      dict_get_def is_object_def shape_types_def shape_data_schema_def shape_schema_def
      json_field_def is_format_error_def)




section \<open>Resolving type references\<close>

lemma repr_char_nonempty: "repr_char q c \<noteq> []"
  by (simp add: repr_char_def)

lemma length_concat_repr: "length s \<le> length (concat (map (repr_char q) s))"
proof (induction s)
  case Nil
  then show ?case by simp
next
  case (Cons c s)
  have "1 \<le> length (repr_char q c)"
    using repr_char_nonempty[of q c] by (cases "repr_char q c") simp_all
  with Cons show ?case by simp
qed

lemma length_py_repr_str: "length s + 2 \<le> length (py_repr_str s)"
  using length_concat_repr[of s] by (simp add: py_repr_str_def Let_def)

lemma py_repr_str_neq: "py_repr_str s \<noteq> s"
  using length_py_repr_str[of s] by auto

lemma name_char_plain:
  assumes "is_name_char c"
  shows "c \<noteq> CHR 0x27" "c \<noteq> CHR 0x22" "repr_char (CHR 0x27) c = [c]"
proof -
  from assms have n: "48 \<le> (of_char c :: nat)" "(of_char c :: nat) \<le> 122" "(of_char c :: nat) \<noteq> 92"
    by (auto simp: is_name_char_def Let_def)
  show "c \<noteq> CHR 0x27" using n by auto
  show "c \<noteq> CHR 0x22" using n by auto
  have "c \<noteq> CHR 0x5C" "c \<noteq> CHR 0x09" "c \<noteq> CHR 0x0A" "c \<noteq> CHR 0x0D" using n by auto
  moreover have "printable c" using n by (auto simp: printable_def Let_def)
  moreover have "c \<noteq> CHR 0x27" using n by auto
  ultimately show "repr_char (CHR 0x27) c = [c]" by (simp add: repr_char_def)
qed

lemma concat_repr_plain:
  "\<forall>c \<in> set s. is_name_char c \<Longrightarrow> concat (map (repr_char (CHR 0x27)) s) = s"
  by (induction s) (simp_all add: name_char_plain)

lemma py_repr_str_plain:
  assumes "\<forall>c \<in> set s. is_name_char c"
  shows "py_repr_str s = CHR 0x27 # s @ [CHR 0x27]"
proof -
  have "CHR 0x27 \<notin> set s" using assms name_char_plain(1) by blast
  then show ?thesis
    using concat_repr_plain[OF assms] by (simp add: py_repr_str_def Let_def)
qed

lemma get_type_ref_wrap:
  "get_type_ref W (wrap_ref ws t) S =
     (case get_type_ref W t S of Inl e \<Rightarrow> Inl e | Inr r \<Rightarrow> Inr (wrap_text ws r))"
  by (induction ws) (auto split: sum.splits)

lemma get_type_ref_concrete:
  assumes "k \<noteq> ''NON_NULL''" "k \<noteq> ''LIST''"
  shows "get_type_ref W (TypeRef k (Some n) ot) S =
           Inr (if n \<in> W \<and> n \<notin> S then n else py_repr_str n)"
  using assms by simp

text \<open>
  C4. \<open>get_type_ref\<close> resolves \<open>NON_NULL(inner)\<close> to the non-null wrapper around
  the resolution of \<open>inner\<close> and \<open>LIST(inner)\<close> to the list wrapper around it, under
  any stack of wrappers. For a named type of any other kind it yields the bare name
  exactly when the name is in the already-emitted set and is not a sibling field
  name, and the quoted name otherwise; the quoted name is never the bare name, and
  for a name of letters, digits and underscores it is the name in single quotes.
  \<open>NON_NULL(LIST(NON_NULL(String)))\<close> gets the same three wrappers whatever was
  emitted before.
\<close>

theorem get_type_ref_resolution:
  "get_type_ref W (TypeRef ''NON_NULL'' nm (Some inner)) S =
     (case get_type_ref W inner S of
        Inl e \<Rightarrow> Inl e
      | Inr r \<Rightarrow> Inr (''sgqlc.types.non_null('' @ r @ '')'')) \<and>
   get_type_ref W (TypeRef ''LIST'' nm (Some inner)) S =
     (case get_type_ref W inner S of
        Inl e \<Rightarrow> Inl e
      | Inr r \<Rightarrow> Inr (''sgqlc.types.list_of('' @ r @ '')'')) \<and>
   (\<forall>ws. get_type_ref W (wrap_ref ws inner) S =
     (case get_type_ref W inner S of Inl e \<Rightarrow> Inl e | Inr r \<Rightarrow> Inr (wrap_text ws r))) \<and>
   (k \<noteq> ''NON_NULL'' \<and> k \<noteq> ''LIST'' \<longrightarrow>
      get_type_ref W (TypeRef k (Some n) ot) S =
        Inr (if n \<in> W \<and> n \<notin> S then n else py_repr_str n) \<and>
      (get_type_ref W (TypeRef k (Some n) ot) S = Inr n \<longleftrightarrow> n \<in> W \<and> n \<notin> S) \<and>
      py_repr_str n \<noteq> n \<and>
      ((\<forall>c \<in> set n. is_name_char c) \<longrightarrow> py_repr_str n = CHR 0x27 # n @ [CHR 0x27])) \<and>
   get_type_ref W (wrap_ref [True, False, True] string_ref) S =
     Inr (''sgqlc.types.non_null(sgqlc.types.list_of(sgqlc.types.non_null('' @
          (if ''String'' \<in> W \<and> ''String'' \<notin> S then ''String''
           else CHR 0x27 # ''String'' @ [CHR 0x27]) @ '')))'')"
proof -
  have plain: "py_repr_str ''String'' = CHR 0x27 # ''String'' @ [CHR 0x27]"
    by (simp add: py_repr_str_def repr_char_def printable_def Let_def)
  have last: "get_type_ref W (wrap_ref [True, False, True] string_ref) S =
     Inr (''sgqlc.types.non_null(sgqlc.types.list_of(sgqlc.types.non_null('' @
          (if ''String'' \<in> W \<and> ''String'' \<notin> S then ''String''
           else CHR 0x27 # ''String'' @ [CHR 0x27]) @ '')))'')"
    unfolding get_type_ref_wrap by (simp add: string_ref_def plain)
  have conc: "k \<noteq> ''NON_NULL'' \<and> k \<noteq> ''LIST'' \<longrightarrow>
      get_type_ref W (TypeRef k (Some n) ot) S =
        Inr (if n \<in> W \<and> n \<notin> S then n else py_repr_str n) \<and>
      (get_type_ref W (TypeRef k (Some n) ot) S = Inr n \<longleftrightarrow> n \<in> W \<and> n \<notin> S) \<and>
      py_repr_str n \<noteq> n \<and>
      ((\<forall>c \<in> set n. is_name_char c) \<longrightarrow> py_repr_str n = CHR 0x27 # n @ [CHR 0x27])"
    using py_repr_str_neq[of n] py_repr_str_plain[of n] by (simp add: get_type_ref_concrete)
  show ?thesis
    using last conc get_type_ref_wrap by simp
qed

theorem get_type_ref_resolution_witness:
  "get_type_ref {''String''} (TypeRef ''SCALAR'' (Some ''String'') None) {} = Inr ''String'' \<and>
   get_type_ref {''String''} (TypeRef ''SCALAR'' (Some ''String'') None) {''String''}
     = Inr (CHR 0x27 # ''String'' @ [CHR 0x27]) \<and>
   get_type_ref {} (wrap_ref [True, False, True] string_ref) {}
     = Inr (''sgqlc.types.non_null(sgqlc.types.list_of(sgqlc.types.non_null('' @
            CHR 0x27 # ''String'' @ [CHR 0x27] @ '')))'')"
proof -
  have k: "''SCALAR'' \<noteq> ''NON_NULL'' \<and> ''SCALAR'' \<noteq> ''LIST''" by simp
  have nc: "\<forall>c \<in> set ''String''. is_name_char c" by (simp add: is_name_char_def)
  from get_type_ref_resolution[of "{''String''}" None string_ref "{}" "''SCALAR''" "''String''" None] k nc
  have a: "get_type_ref {''String''} (TypeRef ''SCALAR'' (Some ''String'') None) {} = Inr ''String''"
    by simp
  from get_type_ref_resolution[of "{''String''}" None string_ref "{''String''}" "''SCALAR''" "''String''" None] k nc
  have b: "get_type_ref {''String''} (TypeRef ''SCALAR'' (Some ''String'') None) {''String''}
     = Inr (CHR 0x27 # ''String'' @ [CHR 0x27])"
    by simp
  from get_type_ref_resolution[of "{}" None string_ref "{}" "''SCALAR''" "''String''" None]
  have c: "get_type_ref {} (wrap_ref [True, False, True] string_ref) {}
     = Inr (''sgqlc.types.non_null(sgqlc.types.list_of(sgqlc.types.non_null('' @
            CHR 0x27 # ''String'' @ [CHR 0x27] @ '')))'')"
    by simp
  from a b c show ?thesis by simp
qed

section \<open>Evaluating literals\<close>

lemma nat_of_digits_foldl:
  "list_all is_digit s \<Longrightarrow>
   nat_of_digits acc s = Some (foldl (\<lambda>a c. 10 * a + (of_char c - 48)) acc s)"
  by (induction s arbitrary: acc) (simp_all add: is_digit_def digit_val_def)

lemma py_int_token: "is_int_token s \<Longrightarrow> py_int s = Inr (int_literal s)"
proof (cases s)
  case Nil
  then show "is_int_token s \<Longrightarrow> ?thesis" by (simp add: is_int_token_def)
next
  case (Cons c cs)
  assume tok: "is_int_token s"
  show ?thesis
  proof (cases "c = CHR ''-''")
    case True
    with tok Cons have "cs \<noteq> []" "list_all is_digit cs" by (simp_all add: is_int_token_def)
    with True Cons show ?thesis
      by (simp add: py_int_def int_literal_def digits_value_def nat_of_digits_foldl)
  next
    case False
    with tok Cons have "list_all is_digit s" by (simp add: is_int_token_def)
    from nat_of_digits_foldl[OF this, of 0] False Cons show ?thesis
      by (simp add: py_int_def int_literal_def digits_value_def)
  qed
qed

lemma dict_set_fresh: "k \<notin> fst ` set d \<Longrightarrow> dict_set d k v = d @ [(k, v)]"
  by (induction d) auto

lemma foldl_dict_set_distinct:
  "distinct (map fst xs) \<Longrightarrow> fst ` set d \<inter> fst ` set xs = {} \<Longrightarrow>
   foldl (\<lambda>d (k, v). dict_set d k v) d xs = d @ xs"
proof (induction xs arbitrary: d)
  case Nil
  then show ?case by simp
next
  case (Cons x xs)
  obtain k v where x: "x = (k, v)" by (cases x)
  from Cons.prems x have fresh: "k \<notin> fst ` set d" by auto
  have "fst ` set (d @ [(k, v)]) \<inter> fst ` set xs = {}"
    using Cons.prems x by auto
  moreover have "distinct (map fst xs)" using Cons.prems by simp
  ultimately have "foldl (\<lambda>d (k, v). dict_set d k v) (d @ [(k, v)]) xs = (d @ [(k, v)]) @ xs"
    by (rule Cons.IH[rotated])
  with fresh x show ?case by (simp add: dict_set_fresh)
qed

lemma py_dict_distinct: "distinct (map fst xs) \<Longrightarrow> py_dict xs = xs"
  using foldl_dict_set_distinct[of xs "[]"] by (simp add: py_dict_def)

lemma map_fst_native_fields: "map fst (native_fields fs) = map fst fs"
  by (induction fs) simp_all

text \<open>
  Where every node is replaced, the traversal is the post-order reduction that the
  documentation describes.
\<close>

lemma visit_node_native:
  "(well_formed v \<and> no_null_or_bool v \<longrightarrow> visit_node v = Done (Some (native_value v)))"
  "(well_formed_values vs \<and> no_null_or_bool_values vs \<longrightarrow>
      visit_values vs prev = Done (native_values vs))"
  "(well_formed_fields fs \<and> no_null_or_bool_fields fs \<longrightarrow>
      visit_fields fs = Done (native_fields fs))"
proof (induction v and vs prev and fs rule: visit_node_visit_values_visit_fields.induct)
  case (1 s)
  then show ?case by (simp add: leave_IntValue_def py_int_token act_on_def)
next
  case (6 vs)
  then show ?case by (simp add: leave_ListValue_def act_on_def)
next
  case (7 fs)
  then show ?case
    by (simp add: leave_ObjectValue_def act_on_def py_dict_distinct map_fst_native_fields)
next
  case (10 v vs prev)
  then show ?case by simp
next
  case (12 f fs)
  then show ?case by (simp add: leave_ObjectField_def)
qed (simp_all add: leave_FloatValue_def leave_StringValue_def leave_EnumValue_def act_on_def)

lemma native_value_not_node:
  "no_null_or_bool v \<Longrightarrow> (case native_value v of PNode n \<Rightarrow> False | _ \<Rightarrow> True)"
  by (cases v) simp_all

lemma literal_without_null_or_bool:
  assumes "parse_graphql_value lib source = Inr v" "well_formed v" "no_null_or_bool v"
  shows "parse_graphql_value_to_json lib source = Inr (native_value v)"
  using assms visit_node_native(1)[of v] native_value_not_node[of v]
  by (auto simp: parse_graphql_value_to_json_def visit_def split: pyval.splits)

lemma literal_boolean:
  assumes "parse_graphql_value lib source = Inr (BooleanValue b)"
  shows "parse_graphql_value_to_json lib source = Inr (PBool b)"
  using assms
  by (cases b) (simp_all add: parse_graphql_value_to_json_def visit_def act_on_def
      leave_BooleanValue_def)

text \<open>
  C3, where the code departs from it. \<open>leave_NullValue\<close> returns \<open>None\<close> and
  \<open>leave_BooleanValue\<close> returns the boolean itself, and the traversal takes these
  as actions, not as values. So the literal \<open>null\<close> comes back as its syntax node,
  which has no \<open>value\<close>, and the evaluator raises an attribute error; a \<open>true\<close>
  inside a list ends the traversal: \<open>[true]\<close> raises the same error and
  \<open>[1, true, 2]\<close> evaluates to \<open>1\<close>; a \<open>null\<close> inside a list stays a syntax node.
\<close>

theorem literal_evaluation_breaks:
  "(parse_graphql_value lib source = Inr NullValue \<longrightarrow>
      parse_graphql_value_to_json lib source = Inl AttributeError) \<and>
   (parse_graphql_value lib source = Inr (ListValue [BooleanValue True]) \<longrightarrow>
      parse_graphql_value_to_json lib source = Inl AttributeError) \<and>
   (parse_graphql_value lib source
      = Inr (ListValue [IntValue ''1'', BooleanValue True, IntValue ''2'']) \<longrightarrow>
      parse_graphql_value_to_json lib source = Inr (PInt 1)) \<and>
   (parse_graphql_value lib source = Inr (ListValue [NullValue]) \<longrightarrow>
      parse_graphql_value_to_json lib source = Inr (PList [PNode NullValue])) \<and>
   (parse_graphql_value lib source = Inr (ObjectValue [(''a'', BooleanValue True)]) \<longrightarrow>
      parse_graphql_value_to_json lib source = Inl AttributeError)"
  by (simp add: parse_graphql_value_to_json_def visit_def act_on_def leave_NullValue_def
      leave_BooleanValue_def leave_IntValue_def leave_ListValue_def py_int_def digit_val_def)

theorem literal_evaluation_breaks_witness:
  "parse_graphql_value example_lib ''null'' = Inr NullValue \<and>
   parse_graphql_value_to_json example_lib ''null'' = Inl AttributeError \<and>
   parse_graphql_value example_lib ''[1, true, 2]''
     = Inr (ListValue [IntValue ''1'', BooleanValue True, IntValue ''2'']) \<and>
   parse_graphql_value_to_json example_lib ''[1, true, 2]'' = Inr (PInt 1)"
proof -
  have p: "parse_graphql_value example_lib ''null'' = Inr NullValue"
    "parse_graphql_value example_lib ''[1, true, 2]''
     = Inr (ListValue [IntValue ''1'', BooleanValue True, IntValue ''2''])"
    by (simp_all add: example_lib_def example_literals_def)
  from literal_evaluation_breaks[of example_lib "''null''"] p(1)
  have a: "parse_graphql_value_to_json example_lib ''null'' = Inl AttributeError"
    by blast
  from literal_evaluation_breaks[of example_lib "''[1, true, 2]''"] p(2)
  have b: "parse_graphql_value_to_json example_lib ''[1, true, 2]'' = Inr (PInt 1)"
    by blast
  from p a b show ?thesis by simp
qed

text \<open>
  The literals of the documentation other than \<open>null\<close> evaluate to their native
  values; \<open>true\<close> does so through the \<open>value\<close> of its unreplaced node.
\<close>

lemma literal_examples:
  "parse_graphql_value_to_json example_lib ''42'' = Inr (PInt 42) \<and>
   parse_graphql_value_to_json example_lib ''3.14'' = Inr (PFloat ''3.14'') \<and>
   parse_graphql_value_to_json example_lib [CHR 0x22, CHR ''h'', CHR ''i'', CHR 0x22]
     = Inr (PStr ''hi'') \<and>
   parse_graphql_value_to_json example_lib ''true'' = Inr (PBool True) \<and>
   parse_graphql_value_to_json example_lib ''[1,2,3]'' = Inr (PList [PInt 1, PInt 2, PInt 3]) \<and>
   parse_graphql_value_to_json example_lib (''{a: 1, b: '' @ [CHR 0x22, CHR ''x'', CHR 0x22] @ ''}'')
     = Inr (PDict [(''a'', PInt 1), (''b'', PStr ''x'')]) \<and>
   parse_graphql_value_to_json example_lib ''SOME_ENUM_VALUE'' = Inr (PStr ''SOME_ENUM_VALUE'')"
  by code_simp

section \<open>Argument defaults\<close>



lemma write_arg_line:
  "write_arg lib a S st =
     (case arg_line lib (written_types st) S a of
        Inl e \<Rightarrow> Inl e
      | Inr l \<Rightarrow> Inr (st\<lparr>out := out st @ [l]\<rparr>))"
  by (simp add: write_arg_def arg_line_def arg_line_with_def writer_def Let_def
      split: sum.splits)





section \<open>How the writers change the state\<close>

lemma only_writes_refl: "only_writes st st"
  by (simp add: only_writes_def)

lemma only_writes_trans: "only_writes a b \<Longrightarrow> only_writes b c \<Longrightarrow> only_writes a c"
  by (auto simp: only_writes_def)

lemma only_writes_writer: "only_writes st (writer x st)"
  by (simp add: only_writes_def writer_def)

lemma only_writes_writer_after: "only_writes a b \<Longrightarrow> only_writes a (writer x b)"
  using only_writes_trans only_writes_writer by blast

lemma only_writes_grows: "only_writes st st' \<Longrightarrow> grows st st'"
  by (simp add: only_writes_def grows_def)

lemma grows_refl: "grows st st"
  by (simp add: grows_def)

lemma grows_trans:
  assumes "grows a b" "grows b c"
  shows "grows a c"
proof -
  from assms have p: "prefix (out a) (out c)" and s: "written_types a \<subseteq> written_types c"
    by (auto simp: grows_def)
  have "\<exists>x \<in> set (out c). is_decl_of n x" if n: "n \<in> written_types c - written_types a" for n
  proof (cases "n \<in> written_types b")
    case True
    with n assms(1) obtain x where "x \<in> set (out b)" "is_decl_of n x"
      by (auto simp: grows_def)
    moreover from assms(2) have "set (out b) \<subseteq> set (out c)"
      by (auto simp: grows_def dest: set_mono_prefix)
    ultimately show ?thesis by blast
  next
    case False
    with n assms(2) show ?thesis by (auto simp: grows_def)
  qed
  with p s show ?thesis by (simp add: grows_def)
qed

lemma declares_grows: "declares n st st' \<Longrightarrow> grows st st'"
  by (auto simp: declares_def grows_def)

lemma declares_after:
  assumes "is_decl_of n c" "only_writes (writer c st) st2"
  shows "declares n st (add_written n st2)"
proof -
  from assms(2) obtain cs where "out st2 = (out st @ [c]) @ cs" "written_types st2 = written_types st"
    by (auto simp: only_writes_def writer_def prefix_def)
  with assms(1) show ?thesis
    by (simp add: declares_def add_written_def)
qed

lemma declared_inv_grows:
  assumes "declared_inv st" "grows st st'"
  shows "declared_inv st'"
proof -
  have "\<exists>c \<in> set (out st'). is_decl_of n c" if n: "n \<in> written_types st'" for n
  proof (cases "n \<in> written_types st")
    case True
    with assms(1) obtain c where "c \<in> set (out st)" "is_decl_of n c"
      by (auto simp: declared_inv_def)
    moreover from assms(2) have "set (out st) \<subseteq> set (out st')"
      by (auto simp: grows_def dest: set_mono_prefix)
    ultimately show ?thesis by blast
  next
    case False
    with n assms(2) show ?thesis by (auto simp: grows_def)
  qed
  then show ?thesis by (simp add: declared_inv_def)
qed

lemma is_decl_of_class: "is_decl_of n (''class '' @ n @ ''('' @ rest)"
  by (simp add: is_decl_of_def)

lemma is_decl_of_alias: "is_decl_of n (n @ '' = sgqlc.types.'' @ rest)"
  by (simp add: is_decl_of_def)

subsection \<open>Fields and arguments\<close>

lemma write_field_input_only_writes:
  "write_field_input lib fld S st = Inr st' \<Longrightarrow> only_writes st st'"
  by (auto simp: write_field_input_def Let_def only_writes_writer split: sum.splits)

lemma write_arg_only_writes: "write_arg lib a S st = Inr st' \<Longrightarrow> only_writes st st'"
  by (auto simp: write_arg_def Let_def only_writes_writer split: sum.splits)

lemma write_args_only_writes: "write_args lib as S st = Inr st' \<Longrightarrow> only_writes st st'"
proof (induction as arbitrary: st)
  case Nil
  then show ?case by (simp add: only_writes_refl)
next
  case (Cons a as)
  then show ?case
    by (auto split: sum.splits intro: only_writes_trans dest: write_arg_only_writes)
qed

lemma write_field_output_only_writes:
  assumes "write_field_output lib fld S st = Inr st'"
  shows "only_writes st st'"
proof -
  from assms obtain tref where
    r: "get_type_ref (written_types st) (field_type fld) S = Inr tref"
    by (auto simp: write_field_output_def Let_def split: sum.splits)
  define st1 where "st1 = writer (''    '' @ to_python_name lib (field_name fld) @
      '' = sgqlc.types.Field('' @ tref @ '', graphql_name='' @ py_repr_str (field_name fld)) st"
  have s1: "only_writes st st1" by (simp add: st1_def only_writes_writer)
  show ?thesis
  proof (cases "args fld = []")
    case True
    with assms r have "st' = writer ('')'' @ NL) st1"
      by (simp add: write_field_output_def Let_def st1_def)
    with s1 show ?thesis by (simp add: only_writes_writer_after)
  next
    case False
    with assms r obtain st2 where
      a: "write_args lib (args fld) S (writer ('', args=sgqlc.types.ArgDict(('' @ NL) st1) = Inr st2"
      and e: "st' = writer ('')'' @ NL) (writer (''))'' @ NL @ ''    '') st2)"
      by (auto simp: write_field_output_def Let_def st1_def split: sum.splits)
    from write_args_only_writes[OF a] s1 have "only_writes st st2"
      using only_writes_trans only_writes_writer_after by blast
    with e show ?thesis by (simp add: only_writes_writer_after)
  qed
qed

lemma write_fields_only_writes:
  assumes "\<And>fld s s'. wfld fld S s = Inr s' \<Longrightarrow> only_writes s s'"
  shows "write_fields wfld fs S st = Inr st' \<Longrightarrow> only_writes st st'"
proof (induction fs arbitrary: st)
  case Nil
  then show ?case by (simp add: only_writes_refl)
next
  case (Cons f fs)
  then show ?case
    by (auto split: sum.splits intro: only_writes_trans dest: assms)
qed

subsection \<open>Declarations\<close>

lemma write_type_container_declares:
  assumes wfld: "\<And>fld S s s'. wfld fld S s = Inr s' \<Longrightarrow> only_writes s s'"
    and ok: "write_type_container lib cg t bases own wfld st = Inr st'"
  shows "declares (t_name t) st st'"
proof -
  from ok obtain st2 where
    f: "write_fields wfld own (snd (get_py_fields_and_siblings lib own))
          (writer (container_header lib cg (t_name t) bases own) st) = Inr st2"
    and e: "st' = add_written (t_name t) (writer (NL @ NL) st2)"
    by (auto simp: write_type_container_def Let_def split: sum.splits)
  have d: "is_decl_of (t_name t) (container_header lib cg (t_name t) bases own)"
    unfolding container_header_def by (simp add: is_decl_of_def)
  from write_fields_only_writes[OF wfld f]
  have "only_writes (writer (container_header lib cg (t_name t) bases own) st) (writer (NL @ NL) st2)"
    by (simp add: only_writes_writer_after)
  from declares_after[OF d this] e show ?thesis by simp
qed

lemma write_type_input_object_declares:
  "write_type_input_object lib cg t st = Inr st' \<Longrightarrow> declares (t_name t) st st'"
  by (auto simp: write_type_input_object_def split: option.splits
      intro: write_type_container_declares[where wfld = "write_field_input lib"]
      dest: write_field_input_only_writes)

lemma write_type_interface_declares:
  "write_type_interface lib cg t st = Inr st' \<Longrightarrow> declares (t_name t) st st'"
  by (auto simp: write_type_interface_def split: option.splits
      intro: write_type_container_declares[where wfld = "write_field_output lib"]
      dest: write_field_output_only_writes)

lemma write_type_object_builtin:
  "t_name t \<in> set builtin_object_names \<Longrightarrow> write_type_object lib cg t st = Inr st"
  by (simp add: write_type_object_def)

lemma write_type_object_declares:
  assumes "write_type_object lib cg t st = Inr st'" "t_name t \<notin> set builtin_object_names"
  shows "declares (t_name t) st st'"
  using assms
  by (auto simp: write_type_object_def Let_def split: sum.splits option.splits prod.splits if_splits
      intro: write_type_container_declares[where wfld = "write_field_output lib"]
      dest: write_field_output_only_writes)

lemma write_type_enum_builtin:
  "t_name t \<in> set builtin_enum_names \<Longrightarrow> write_type_enum cg t st = Inr st"
  by (simp add: write_type_enum_def)

lemma write_type_enum_declares:
  assumes "write_type_enum cg t st = Inr st'" "t_name t \<notin> set builtin_enum_names"
  shows "declares (t_name t) st st'"
proof -
  from assms obtain vs where
    "st' = add_written (t_name t) (writer
       (''class '' @ t_name t @ ''('' @ ''sgqlc.types.Enum):'' @ NL @
        ''    __schema__ = '' @ schema_name cg @ NL @
        ''    __choices__ = '' @ py_repr_tuple (map nr_name vs) @ NL @ NL @ NL) st)"
    by (auto simp: write_type_enum_def Let_def split: option.splits)
  then show ?thesis
    using declares_after[OF is_decl_of_class only_writes_refl] by simp
qed

lemma write_type_scalar_declares:
  "\<exists>st'. write_type_scalar cg t st = Inr st' \<and> declares (t_name t) st st'"
proof -
  let ?n = "t_name t"
  have a: "declares ?n st (add_written ?n (writer (NL @ NL) (writer (?n @ '' = sgqlc.types.'' @ r) st)))" for r
    using declares_after[OF is_decl_of_alias only_writes_writer] .
  have c: "declares ?n st (add_written ?n (writer (NL @ NL) (writer (''class '' @ ?n @ ''('' @ r) st)))" for r
    using declares_after[OF is_decl_of_class only_writes_writer] .
  show ?thesis
    using a[of ?n] a[of "''datetime.'' @ ?n"]
      c[of "''sgqlc.types.Scalar):'' @ NL @ ''    __schema__ = '' @ schema_name cg @ NL"]
    by (simp add: write_type_scalar_def Let_def)
qed

lemma write_type_union_declares:
  assumes "write_type_union cg t st = Inr st'"
  shows "declares (t_name t) st st'"
proof -
  from assms obtain r where
    "st' = add_written (t_name t) (writer (''class '' @ t_name t @ ''('' @ r) st)"
    by (auto simp: write_type_union_def Let_def split: option.splits)
  then show ?thesis
    using declares_after[OF is_decl_of_class only_writes_refl] by simp
qed

subsection \<open>The phases\<close>

lemma write_banner_only_writes: "only_writes st (write_banner text st)"
  by (simp add: write_banner_def Let_def only_writes_writer)

lemma write_header_only_writes: "only_writes st (write_header cg st)"
  by (simp add: write_header_def write_relay_fixup_def write_relay_import_def
      write_datetime_import_def only_writes_def writer_def)

lemma write_entry_points_only_writes: "only_writes st (write_entry_points cg st)"
  by (simp add: write_entry_points_def write_banner_def Let_def only_writes_def writer_def)

lemma mapper_basic_grows:
  "mapper_basic cg k = Some mapped \<Longrightarrow> mapped t st = Inr st' \<Longrightarrow> grows st st'"
  using write_type_enum_builtin[of t cg st] write_type_enum_declares[of cg t st st']
    write_type_scalar_declares[of cg t st]
  by (cases "t_name t \<in> set builtin_enum_names")
     (auto simp: mapper_basic_def grows_refl split: if_splits dest: declares_grows)

lemma mapper_input_containers_grows:
  "mapper_input_containers lib cg k = Some mapped \<Longrightarrow> mapped t st = Inr st' \<Longrightarrow> grows st st'"
  by (auto simp: mapper_input_containers_def split: if_splits
      dest: write_type_input_object_declares declares_grows)

lemma mapper_output_containers_grows:
  "mapper_output_containers lib cg k = Some mapped \<Longrightarrow> mapped t st = Inr st' \<Longrightarrow> grows st st'"
  using write_type_object_builtin[of t lib cg st] write_type_object_declares[of lib cg t st st']
  by (cases "t_name t \<in> set builtin_object_names")
     (auto simp: mapper_output_containers_def grows_refl split: if_splits
      dest: write_type_interface_declares declares_grows)

lemma mapper_post_grows:
  "mapper_post cg k = Some mapped \<Longrightarrow> mapped t st = Inr st' \<Longrightarrow> grows st st'"
  by (auto simp: mapper_post_def split: if_splits dest: write_type_union_declares declares_grows)

lemma run_phase_grows:
  assumes m: "\<And>k mapped t s s'. mapper k = Some mapped \<Longrightarrow> mapped t s = Inr s' \<Longrightarrow> grows s s'"
  shows "run_phase mapper todo remaining st = Inr (remaining', st') \<Longrightarrow> grows st st'"
proof (induction todo arbitrary: remaining st)
  case Nil
  then show ?case by (simp add: grows_refl)
next
  case (Cons t todo)
  show ?case
  proof (cases "mapper (t_kind t)")
    case None
    with Cons show ?thesis by simp
  next
    case (Some mapped)
    with Cons.prems obtain s1 where s1: "mapped t st = Inr s1"
      and r: "run_phase mapper todo remaining s1 = Inr (remaining', st')"
      by (auto split: sum.splits)
    from m[OF Some s1] Cons.IH[OF r] show ?thesis by (rule grows_trans)
  qed
qed

lemma run_phase_remaining:
  "run_phase mapper todo remaining st = Inr (remaining', st') \<Longrightarrow>
   remaining' = remaining @ filter (\<lambda>t. mapper (t_kind t) = None) todo"
proof (induction todo arbitrary: remaining st)
  case Nil
  then show ?case by simp
next
  case (Cons t todo)
  show ?case
  proof (cases "mapper (t_kind t)")
    case None
    with Cons.prems have "run_phase mapper todo (remaining @ [t]) st = Inr (remaining', st')"
      by simp
    from Cons.IH[OF this] None show ?thesis by simp
  next
    case (Some mapped)
    with Cons.prems obtain s1 where
      "run_phase mapper todo remaining s1 = Inr (remaining', st')"
      by (auto split: sum.splits)
    from Cons.IH[OF this] Some show ?thesis by simp
  qed
qed

lemma run_phase_append:
  "run_phase mapper (pre @ post) remaining st =
     (case run_phase mapper pre remaining st of
        Inl e \<Rightarrow> Inl e
      | Inr (r, s) \<Rightarrow> run_phase mapper post r s)"
proof (induction pre arbitrary: remaining st)
  case Nil
  then show ?case by simp
next
  case (Cons t pre)
  then show ?case by (cases "mapper (t_kind t)") (auto split: sum.splits)
qed

lemma banner_grows: "grows st (write_banner text st)"
  by (simp add: only_writes_grows write_banner_only_writes)

lemma phase1_grows:
  assumes "phase1 cg st = Inr (r, st')"
  shows "grows st st'"
proof -
  have "grows (write_banner ''Scalars and Enumerations'' st) st'"
    using assms unfolding phase1_def
    by (rule run_phase_grows[rotated]) (erule mapper_basic_grows, assumption)
  with banner_grows show ?thesis by (rule grows_trans)
qed

lemma phase2_grows:
  assumes "phase2 lib cg todo st = Inr (r, st')"
  shows "grows st st'"
proof -
  have "grows (write_banner ''Input Objects'' st) st'"
    using assms unfolding phase2_def
    by (rule run_phase_grows[rotated]) (erule mapper_input_containers_grows, assumption)
  with banner_grows show ?thesis by (rule grows_trans)
qed

lemma run_phase_output_grows:
  assumes "run_phase (mapper_output_containers lib cg) todo remaining st = Inr (r, st')"
  shows "grows st st'"
  using assms
  by (rule run_phase_grows[rotated]) (erule mapper_output_containers_grows, assumption)

lemma phase3_grows:
  assumes "phase3 lib cg todo st = Inr (r, st')"
  shows "grows st st'"
proof -
  have "grows (write_banner ''Output Objects and Interfaces'' st) st'"
    using assms unfolding phase3_def by (rule run_phase_output_grows)
  with banner_grows show ?thesis by (rule grows_trans)
qed

lemma phase4_grows:
  assumes "phase4 cg todo st = Inr (r, st')"
  shows "grows st st'"
proof -
  have "grows (write_banner ''Unions'' st) st'"
    using assms unfolding phase4_def
    by (rule run_phase_grows[rotated]) (erule mapper_post_grows, assumption)
  with banner_grows show ?thesis by (rule grows_trans)
qed

lemma phases12_grows: "phases12 lib cg st = Inr (r, st') \<Longrightarrow> grows st st'"
  by (auto simp: phases12_def split: sum.splits dest: phase1_grows phase2_grows intro: grows_trans)

lemma run_phases_grows:
  assumes "run_phases lib cg st = Inr (r, st')"
  shows "grows st st'"
proof -
  from assms obtain r2 s2 r3 s3 where
    a: "phases12 lib cg st = Inr (r2, s2)" and b: "phase3 lib cg r2 s2 = Inr (r3, s3)"
    and c: "phase4 cg r3 s3 = Inr (r, st')"
    by (auto simp: run_phases_def split: sum.splits)
  from phases12_grows[OF a] phase3_grows[OF b] have "grows st s3" by (rule grows_trans)
  from this phase4_grows[OF c] show ?thesis by (rule grows_trans)
qed

lemma write_types_grows: "write_types lib cg st = Inr st' \<Longrightarrow> grows st st'"
  by (auto simp: write_types_def split: sum.splits if_splits dest: run_phases_grows)

lemma CodeGen_write_grows:
  assumes "CodeGen_write lib cg st = Inr st'"
  shows "grows st st'"
proof -
  from assms obtain s1 where w: "write_types lib cg (write_header cg st) = Inr s1"
    and e: "st' = write_entry_points cg s1"
    by (auto simp: CodeGen_write_def split: sum.splits)
  have "grows st (write_header cg st)"
    by (simp add: only_writes_grows write_header_only_writes)
  moreover note write_types_grows[OF w]
  moreover have "grows s1 st'"
    by (simp add: e only_writes_grows write_entry_points_only_writes)
  ultimately show ?thesis using grows_trans by blast
qed

section \<open>The emission state only grows\<close>

lemma short_run:
  "(case CodeGen_write example_lib (CodeGen_init ''s'' short_schema) init_state of
      Inl e \<Rightarrow> False
    | Inr st' \<Rightarrow> written_types st' = {''A'', ''D'', ''Z''})"
  by code_simp

text \<open>
  C7. \<open>written_types\<close> starts empty. The scalar writer always declares the name of
  its type; the enum, union, input-object, interface and object writers, when they
  return, have declared the name of their type (its declaration is appended to the
  output and the name is the one name added), except that a built-in introspection
  enum or meta-object leaves the state as it was. Banners, header, entry points,
  fields and arguments only append to the output. Over a whole of \<open>write_types\<close> or
  \<open>CodeGen.write\<close> no name is removed and every added name has its declaration in
  the output.
\<close>

theorem written_types_monotone:
  "written_types init_state = {} \<and>
   (\<exists>st'. write_type_scalar cg t st = Inr st' \<and> declares (t_name t) st st') \<and>
   (write_type_enum cg t st = Inr st' \<longrightarrow>
      (if t_name t \<in> set builtin_enum_names then st' = st else declares (t_name t) st st')) \<and>
   (write_type_union cg t st = Inr st' \<longrightarrow> declares (t_name t) st st') \<and>
   (write_type_input_object lib cg t st = Inr st' \<longrightarrow> declares (t_name t) st st') \<and>
   (write_type_interface lib cg t st = Inr st' \<longrightarrow> declares (t_name t) st st') \<and>
   (write_type_object lib cg t st = Inr st' \<longrightarrow>
      (if t_name t \<in> set builtin_object_names then st' = st else declares (t_name t) st st')) \<and>
   only_writes st (write_banner title st) \<and>
   only_writes st (write_header cg st) \<and>
   only_writes st (write_entry_points cg st) \<and>
   (write_field_input lib fld S st = Inr st' \<longrightarrow> only_writes st st') \<and>
   (write_field_output lib fld S st = Inr st' \<longrightarrow> only_writes st st') \<and>
   (write_arg lib a S st = Inr st' \<longrightarrow> only_writes st st') \<and>
   (write_types lib cg st = Inr st' \<longrightarrow> grows st st') \<and>
   (CodeGen_write lib cg st = Inr st' \<longrightarrow> grows st st')"
proof -
  have e: "write_type_enum cg t st = Inr st' \<longrightarrow>
      (if t_name t \<in> set builtin_enum_names then st' = st else declares (t_name t) st st')"
    using write_type_enum_builtin[of t cg st] write_type_enum_declares[of cg t st st'] by auto
  have ob: "write_type_object lib cg t st = Inr st' \<longrightarrow>
      (if t_name t \<in> set builtin_object_names then st' = st else declares (t_name t) st st')"
    using write_type_object_builtin[of t lib cg st] write_type_object_declares[of lib cg t st st']
    by auto
  show ?thesis
    using e ob write_type_scalar_declares[of cg t st] write_type_union_declares[of cg t st st']
      write_type_input_object_declares[of lib cg t st st']
      write_type_interface_declares[of lib cg t st st']
      write_banner_only_writes[of st title] write_header_only_writes[of st cg]
      write_entry_points_only_writes[of st cg]
      write_field_input_only_writes[of lib fld S st st']
      write_field_output_only_writes[of lib fld S st st']
      write_arg_only_writes[of lib a S st st']
      write_types_grows[of lib cg st st'] CodeGen_write_grows[of lib cg st st']
    by (simp add: init_state_def)
qed

theorem written_types_monotone_witness:
  "\<exists>st'. CodeGen_write example_lib (CodeGen_init ''s'' short_schema) init_state = Inr st' \<and>
     grows init_state st' \<and> written_types init_state = {} \<and>
     written_types st' = {''A'', ''D'', ''Z''} \<and>
     (\<exists>c \<in> set (out st'). is_decl_of ''D'' c)"
proof -
  from short_run obtain st' where
    r: "CodeGen_write example_lib (CodeGen_init ''s'' short_schema) init_state = Inr st'"
    and w: "written_types st' = {''A'', ''D'', ''Z''}"
    by (auto split: sum.splits)
  from written_types_monotone[of _ _ init_state _ example_lib _ _ _ _ ] r
  have g: "grows init_state st'" and i: "written_types init_state = {}"
    by blast+
  from g w i have "\<exists>c \<in> set (out st'). is_decl_of ''D'' c"
    by (auto simp: grows_def)
  with r g w i show ?thesis by blast
qed

section \<open>The own fields of an object\<close>

lemma collect_interfaces_result:
  "collect_interfaces cg W ifaces bases inh = Inr (bases', inh') \<Longrightarrow>
   bases' = bases @ map nr_name ifaces \<and>
   inh' = inh \<union> set (concat (map (iface_field_names cg) ifaces)) \<and>
   (\<forall>i \<in> set ifaces. nr_name i \<in> W)"
proof (induction ifaces arbitrary: bases inh)
  case Nil
  then show ?case by simp
next
  case (Cons i ifaces)
  from Cons.prems obtain it fs where
    w: "nr_name i \<in> W" and it: "type_by_name cg (nr_name i) = Some it" and fs: "t_fields it = Some fs"
    and r: "collect_interfaces cg W ifaces (bases @ [nr_name i]) (inh \<union> set (map field_name fs))
              = Inr (bases', inh')"
    by (auto simp: Let_def split: if_splits option.splits)
  from it fs have "set (iface_field_names cg i) = set (map field_name fs)"
    by (simp add: iface_field_names_def)
  with Cons.IH[OF r] w show ?case by auto
qed

subsection \<open>What the field writers append\<close>

lemma write_args_lines:
  "write_args lib as S st =
     (case arg_lines lib (written_types st) S as of
        Inl e \<Rightarrow> Inl e
      | Inr ls \<Rightarrow> Inr (st\<lparr>out := out st @ ls\<rparr>))"
proof (induction as arbitrary: st)
  case Nil
  then show ?case by simp
next
  case (Cons a as)
  show ?case
  proof (cases "arg_line lib (written_types st) S a")
    case (Inl e)
    then show ?thesis by (simp add: write_arg_line)
  next
    case (Inr l)
    then show ?thesis
      by (simp add: write_arg_line Cons.IH split: sum.splits)
  qed
qed

lemma write_field_output_chunks:
  "write_field_output lib fld S st =
     (case field_chunks lib (written_types st) S fld of
        Inl e \<Rightarrow> Inl e
      | Inr cs \<Rightarrow> Inr (st\<lparr>out := out st @ cs\<rparr>))"
  by (simp add: write_field_output_def field_chunks_def field_line_def write_args_lines
      writer_def Let_def split: sum.splits)

lemma write_fields_chunks:
  "write_fields (write_field_output lib) fs S st =
     (case fields_chunks lib (written_types st) S fs of
        Inl e \<Rightarrow> Inl e
      | Inr cs \<Rightarrow> Inr (st\<lparr>out := out st @ cs\<rparr>))"
proof (induction fs arbitrary: st)
  case Nil
  then show ?case by simp
next
  case (Cons fld fs)
  note h = write_field_output_chunks[of lib fld S st]
  show ?case
  proof (cases "field_chunks lib (written_types st) S fld")
    case (Inl e)
    with h have "write_field_output lib fld S st = Inl e" by simp
    with Inl show ?thesis by simp
  next
    case (Inr cs)
    with h have w: "write_field_output lib fld S st = Inr (st\<lparr>out := out st @ cs\<rparr>)" by simp
    have "write_fields (write_field_output lib) fs S (st\<lparr>out := out st @ cs\<rparr>) =
       (case fields_chunks lib (written_types st) S fs of
          Inl e \<Rightarrow> Inl e
        | Inr rest \<Rightarrow> Inr (st\<lparr>out := out st @ cs @ rest\<rparr>))"
      using Cons.IH[of "st\<lparr>out := out st @ cs\<rparr>"] by (simp split: sum.splits)
    with w Inr show ?thesis by (simp split: sum.splits)
  qed
qed

lemma field_chunks_first:
  "field_chunks lib W S fld = Inr cs \<Longrightarrow>
   \<exists>c \<in> set cs.
     prefix (''    '' @ to_python_name lib (field_name fld) @ '' = sgqlc.types.Field('') c"
  by (auto simp: field_chunks_def field_line_def split: sum.splits if_splits)

lemma fields_chunks_every_field:
  "fields_chunks lib W S fs = Inr cs \<Longrightarrow> fld \<in> set fs \<Longrightarrow>
   \<exists>c \<in> set cs.
     prefix (''    '' @ to_python_name lib (field_name fld) @ '' = sgqlc.types.Field('') c"
proof (induction fs arbitrary: cs)
  case Nil
  then show ?case by simp
next
  case (Cons f fs)
  from Cons.prems(1) obtain c1 rest where
    c1: "field_chunks lib W S f = Inr c1" and rest: "fields_chunks lib W S fs = Inr rest"
    and cs: "cs = c1 @ rest"
    by (auto split: sum.splits)
  show ?case
  proof (cases "fld = f")
    case True
    with field_chunks_first[OF c1] cs show ?thesis by auto
  next
    case False
    with Cons.prems(2) have "fld \<in> set fs" by simp
    from Cons.IH[OF rest this] cs show ?thesis by auto
  qed
qed

text \<open>
  C2. When \<open>write_type_object\<close> emits an object (its name is not a built-in
  meta-object and the writer returns), what it appends to the output is the class
  statement, whose \<open>__field_names__\<close> are the own fields, then the chunks of the own
  fields one after the other, then two newlines; the own fields are the declared
  fields of the type without those whose name is a field name of an implemented
  interface, each interface looked up by name in \<open>type_by_name\<close>. The own fields are
  a subsequence of the declared fields, a declared field is among them exactly when
  its name is not inherited, and each of them has its line in the output.
\<close>

theorem own_fields_exclusive:
  assumes "write_type_object lib cg t st = Inr st'"
    and "t_name t \<notin> set builtin_object_names"
  shows "\<exists>fs chunks.
      t_fields t = Some fs \<and>
      fields_chunks lib (written_types st) (set (map field_name (own_fields_of cg t fs)))
        (own_fields_of cg t fs) = Inr chunks \<and>
      out st' = out st @ [object_header lib cg t (own_fields_of cg t fs)] @ chunks @ [NL @ NL] \<and>
      written_types st' = insert (t_name t) (written_types st) \<and>
      own_fields_of cg t fs = filter (\<lambda>fld. field_name fld \<notin> set (inherited_names cg t)) fs \<and>
      subseq (own_fields_of cg t fs) fs \<and>
      (\<forall>fld \<in> set fs. fld \<in> set (own_fields_of cg t fs) \<longleftrightarrow>
                        field_name fld \<notin> set (inherited_names cg t)) \<and>
      (\<forall>fld \<in> set (own_fields_of cg t fs). \<exists>c \<in> set chunks.
         prefix (''    '' @ to_python_name lib (field_name fld) @ '' = sgqlc.types.Field('') c)"
proof -
  let ?base = "if uses_relay cg \<and> suffix ''Connection'' (t_name t)
               then ''sgqlc.types.relay.Connection'' else ''sgqlc.types.Type''"
  from assms obtain bases inh fs where
    c: "collect_interfaces cg (written_types st) (or_empty (t_interfaces t)) [?base] {} = Inr (bases, inh)"
    and fs: "t_fields t = Some fs"
    and k: "write_type_container lib cg t (py_join '', '' bases)
              (filter (\<lambda>fld. field_name fld \<notin> inh) fs) (write_field_output lib) st = Inr st'"
    by (auto simp: write_type_object_def Let_def split: sum.splits option.splits prod.splits if_splits)
  from collect_interfaces_result[OF c]
  have inh: "inh = set (inherited_names cg t)"
    and bases: "bases = ?base # map nr_name (or_empty (t_interfaces t))"
    by (simp_all add: inherited_names_def)
  let ?own = "own_fields_of cg t fs"
  have own: "filter (\<lambda>fld. field_name fld \<notin> inh) fs = ?own"
    by (simp add: own_fields_of_def inh)
  have hd: "container_header lib cg (t_name t) (py_join '', '' bases) ?own = object_header lib cg t ?own"
    by (simp add: container_header_def object_header_def get_py_fields_and_siblings_def bases
        Let_def comp_def)
  from k obtain chunks where
    ch: "fields_chunks lib (written_types st) (set (map field_name ?own)) ?own = Inr chunks"
    and o: "out st' = out st @ [object_header lib cg t ?own] @ chunks @ [NL @ NL]"
    and w: "written_types st' = insert (t_name t) (written_types st)"
    unfolding own write_type_container_def
    by (auto simp: write_fields_chunks hd get_py_fields_and_siblings_def Let_def writer_def
        add_written_def split: sum.splits)
  have "\<forall>fld \<in> set ?own. \<exists>c \<in> set chunks.
         prefix (''    '' @ to_python_name lib (field_name fld) @ '' = sgqlc.types.Field('') c"
    using fields_chunks_every_field[OF ch] by blast
  moreover have "subseq ?own fs" by (simp add: own_fields_of_def)
  moreover have "\<forall>fld \<in> set fs. fld \<in> set ?own \<longleftrightarrow> field_name fld \<notin> set (inherited_names cg t)"
    by (simp add: own_fields_of_def)
  moreover have "?own = filter (\<lambda>fld. field_name fld \<notin> set (inherited_names cg t)) fs"
    by (simp add: own_fields_of_def)
  ultimately show ?thesis using fs ch o w by blast
qed

lemma type_D_emitted:
  "\<not> isl (write_type_object example_lib (CodeGen_init ''s'' short_schema) type_D
            \<lparr>out = [], written_types = {''A'', ''Z''}\<rparr>) \<and>
   out (projr (write_type_object example_lib (CodeGen_init ''s'' short_schema) type_D
            \<lparr>out = [], written_types = {''A'', ''Z''}\<rparr>)) =
     [''class D(sgqlc.types.Type, Z, A):'' @ NL @
      ''    __schema__ = s'' @ NL @
      ''    __field_names__ = ('' @ quoted ''d'' @ '',)'' @ NL,
      ''    d = sgqlc.types.Field('' @ quoted ''String'' @ '', graphql_name='' @ quoted ''d'',
      '')'' @ NL,
      NL @ NL] \<and>
   t_name type_D \<notin> set builtin_object_names \<and>
   t_fields type_D = Some (map mk_field [''a'', ''z'', ''d'']) \<and>
   own_fields_of (CodeGen_init ''s'' short_schema) type_D (map mk_field [''a'', ''z'', ''d''])
     = [mk_field ''d'']"
  by code_simp

theorem own_fields_exclusive_witness:
  "\<exists>st'. write_type_object example_lib (CodeGen_init ''s'' short_schema) type_D
            \<lparr>out = [], written_types = {''A'', ''Z''}\<rparr> = Inr st' \<and>
     t_name type_D \<notin> set builtin_object_names \<and>
     out st' =
       [''class D(sgqlc.types.Type, Z, A):'' @ NL @
        ''    __schema__ = s'' @ NL @
        ''    __field_names__ = ('' @ quoted ''d'' @ '',)'' @ NL,
        ''    d = sgqlc.types.Field('' @ quoted ''String'' @ '', graphql_name='' @ quoted ''d'',
        '')'' @ NL,
        NL @ NL] \<and>
     written_types st' = {''A'', ''D'', ''Z''} \<and>
     own_fields_of (CodeGen_init ''s'' short_schema) type_D (map mk_field [''a'', ''z'', ''d''])
       = [mk_field ''d'']"
proof -
  let ?cg = "CodeGen_init ''s'' short_schema"
  let ?st = "\<lparr>out = [], written_types = {''A'', ''Z''}\<rparr>"
  define st' where "st' = projr (write_type_object example_lib ?cg type_D ?st)"
  from type_D_emitted have r: "write_type_object example_lib ?cg type_D ?st = Inr st'"
    unfolding st'_def by (cases "write_type_object example_lib ?cg type_D ?st") simp_all
  from type_D_emitted have nb: "t_name type_D \<notin> set builtin_object_names" by simp
  from own_fields_exclusive[OF r nb]
  have "written_types st' = insert (t_name type_D) {''A'', ''Z''}" by auto
  then have w: "written_types st' = {''A'', ''D'', ''Z''}"
    by (auto simp: type_D_def mk_type_def)
  from type_D_emitted have o: "out st' =
       [''class D(sgqlc.types.Type, Z, A):'' @ NL @
        ''    __schema__ = s'' @ NL @
        ''    __field_names__ = ('' @ quoted ''d'' @ '',)'' @ NL,
        ''    d = sgqlc.types.Field('' @ quoted ''String'' @ '', graphql_name='' @ quoted ''d'',
        '')'' @ NL,
        NL @ NL]"
    unfolding st'_def by simp
  from type_D_emitted r nb w o show ?thesis by simp
qed

section \<open>Every type is claimed by one phase\<close>

lemma mapper_basic_None:
  "mapper_basic cg k = None \<longleftrightarrow> k \<noteq> ''ENUM'' \<and> k \<noteq> ''SCALAR''"
  by (simp add: mapper_basic_def)

lemma mapper_input_containers_None:
  "mapper_input_containers lib cg k = None \<longleftrightarrow> k \<noteq> ''INPUT_OBJECT''"
  by (simp add: mapper_input_containers_def)

lemma mapper_output_containers_None:
  "mapper_output_containers lib cg k = None \<longleftrightarrow> k \<noteq> ''INTERFACE'' \<and> k \<noteq> ''OBJECT''"
  by (simp add: mapper_output_containers_def)

lemma mapper_post_None: "mapper_post cg k = None \<longleftrightarrow> k \<noteq> ''UNION''"
  by (simp add: mapper_post_def)

lemma claim_count_claimed: "k \<in> set claimed_kinds \<Longrightarrow> claim_count lib cg k = 1"
  by (auto simp: claimed_kinds_def claim_count_def mapper_basic_def mapper_input_containers_def
      mapper_output_containers_def mapper_post_def)

lemma claim_count_unclaimed: "k \<notin> set claimed_kinds \<Longrightarrow> claim_count lib cg k = 0"
  by (simp add: claimed_kinds_def claim_count_def mapper_basic_def mapper_input_containers_def
      mapper_output_containers_def mapper_post_def)

lemma phases12_remaining:
  assumes "phases12 lib cg st = Inr (r2, s2)"
  shows "r2 = filter (\<lambda>t. t_kind t \<notin> {''ENUM'', ''SCALAR'', ''INPUT_OBJECT''}) (types cg)"
proof -
  from assms obtain r1 s1 where
    a: "phase1 cg st = Inr (r1, s1)" and b: "phase2 lib cg r1 s1 = Inr (r2, s2)"
    by (auto simp: phases12_def split: sum.splits)
  from run_phase_remaining[OF a[unfolded phase1_def]]
  have "r1 = filter (\<lambda>t. t_kind t \<noteq> ''ENUM'' \<and> t_kind t \<noteq> ''SCALAR'') (types cg)"
    by (simp add: mapper_basic_None)
  moreover from run_phase_remaining[OF b[unfolded phase2_def]]
  have "r2 = filter (\<lambda>t. t_kind t \<noteq> ''INPUT_OBJECT'') r1"
    by (simp add: mapper_input_containers_None)
  ultimately show ?thesis by (simp add: conj_commute conj_left_commute)
qed

lemma run_phases_remaining:
  assumes p: "sort_permutes lib" and r: "run_phases lib cg st = Inr (r4, s4)"
  shows "mset r4 = filter_mset (\<lambda>t. t_kind t \<notin> set claimed_kinds) (mset (types cg))"
proof -
  from r obtain r2 s2 r3 s3 where
    a: "phases12 lib cg st = Inr (r2, s2)" and b: "phase3 lib cg r2 s2 = Inr (r3, s3)"
    and c: "phase4 cg r3 s3 = Inr (r4, s4)"
    by (auto simp: run_phases_def split: sum.splits)
  from run_phase_remaining[OF b[unfolded phase3_def]]
  have r3: "r3 = filter (\<lambda>t. t_kind t \<noteq> ''INTERFACE'' \<and> t_kind t \<noteq> ''OBJECT'')
                   (list_sort lib depend_cmp r2)"
    by (simp add: mapper_output_containers_None)
  from run_phase_remaining[OF c[unfolded phase4_def]]
  have r4: "r4 = filter (\<lambda>t. t_kind t \<noteq> ''UNION'') r3"
    by (simp add: mapper_post_None)
  from p have "mset (list_sort lib depend_cmp r2) = mset r2"
    by (simp add: sort_permutes_def)
  with r3 r4 phases12_remaining[OF a] show ?thesis
    by (auto simp: claimed_kinds_def filter_filter_mset intro!: filter_mset_cong)
qed

lemma write_types_cases:
  "write_types lib cg st =
     (case run_phases lib cg st of
        Inl e \<Rightarrow> Inl e
      | Inr (r, s) \<Rightarrow> if r \<noteq> [] then Inl (AssertionError None) else Inr s)"
  by (simp add: write_types_def)

text \<open>
  C6. Let the library sort return a permutation of its input. Each of the six kinds
  is known to exactly one of the four mappers and no other kind to any. Whenever the
  four phases run to their end, what remains is, as a multiset, the types whose kind
  is none of the six. So when every declared type has one of the six kinds nothing
  remains, the final assertion holds and \<open>write_types\<close> returns, and any error of
  \<open>write_types\<close> is one that a phase raised; when some type has another kind,
  \<open>write_types\<close> never returns: that type is left over and the final assertion
  fails, unless a phase has raised before.
\<close>

theorem classification_total:
  assumes "sort_permutes lib"
  shows "(\<forall>k \<in> set claimed_kinds. claim_count lib cg k = 1) \<and>
    (\<forall>k. k \<notin> set claimed_kinds \<longrightarrow> claim_count lib cg k = 0) \<and>
    (\<forall>r s. run_phases lib cg st = Inr (r, s) \<longrightarrow>
       mset r = filter_mset (\<lambda>t. t_kind t \<notin> set claimed_kinds) (mset (types cg))) \<and>
    ((\<forall>t \<in> set (types cg). t_kind t \<in> set claimed_kinds) \<longrightarrow>
       (\<forall>r s. run_phases lib cg st = Inr (r, s) \<longrightarrow> r = [] \<and> write_types lib cg st = Inr s) \<and>
       (\<forall>e. write_types lib cg st = Inl e \<longrightarrow> run_phases lib cg st = Inl e)) \<and>
    ((\<exists>t \<in> set (types cg). t_kind t \<notin> set claimed_kinds) \<longrightarrow>
       (\<exists>e. write_types lib cg st = Inl e) \<and>
       (\<forall>r s. run_phases lib cg st = Inr (r, s) \<longrightarrow>
          (\<exists>t \<in> set r. t_kind t \<notin> set claimed_kinds) \<and>
          write_types lib cg st = Inl (AssertionError None)))"
proof -
  have rem: "mset r = filter_mset (\<lambda>t. t_kind t \<notin> set claimed_kinds) (mset (types cg))"
    if "run_phases lib cg st = Inr (r, s)" for r s
    using run_phases_remaining[OF assms that] .
  have all: "r = [] \<and> write_types lib cg st = Inr s"
    if k: "\<forall>t \<in> set (types cg). t_kind t \<in> set claimed_kinds"
      and r: "run_phases lib cg st = Inr (r, s)" for r s
  proof -
    from rem[OF r] k have "mset r = {#}"
      by simp
    then have "r = []" by simp
    with r show ?thesis by (simp add: write_types_cases)
  qed
  have err: "run_phases lib cg st = Inl e"
    if k: "\<forall>t \<in> set (types cg). t_kind t \<in> set claimed_kinds"
      and w: "write_types lib cg st = Inl e" for e
  proof (cases "run_phases lib cg st")
    case (Inl e')
    with w show ?thesis by (simp add: write_types_cases)
  next
    case (Inr p)
    obtain r s where "p = (r, s)" by (cases p)
    with Inr all[OF k] w show ?thesis by auto
  qed
  have other: "(\<exists>t \<in> set r. t_kind t \<notin> set claimed_kinds) \<and>
      write_types lib cg st = Inl (AssertionError None)"
    if k: "\<exists>t \<in> set (types cg). t_kind t \<notin> set claimed_kinds"
      and r: "run_phases lib cg st = Inr (r, s)" for r s
  proof -
    from k obtain t where t: "t \<in> set (types cg)" "t_kind t \<notin> set claimed_kinds" by blast
    then have "t \<in># filter_mset (\<lambda>t. t_kind t \<notin> set claimed_kinds) (mset (types cg))"
      by simp
    with rem[OF r] have "t \<in> set r" by (metis set_mset_mset)
    with t r show ?thesis by (auto simp: write_types_cases)
  qed
  have fails: "\<exists>e. write_types lib cg st = Inl e"
    if k: "\<exists>t \<in> set (types cg). t_kind t \<notin> set claimed_kinds"
  proof (cases "run_phases lib cg st")
    case (Inl e)
    then show ?thesis by (simp add: write_types_cases)
  next
    case (Inr p)
    obtain r s where "p = (r, s)" by (cases p)
    with Inr other[OF k] show ?thesis by blast
  qed
  show ?thesis
    using claim_count_claimed claim_count_unclaimed rem all err other fails by blast
qed

subsection \<open>The sort of the worked examples permutes its input\<close>

lemma mset_bin_insert: "mset (bin_insert lt ys p) = add_mset p (mset ys)"
proof -
  have "mset (take l ys @ p # drop l ys) = add_mset p (mset ys)" for l
  proof -
    have "mset (take l ys @ p # drop l ys) = add_mset p (mset (take l ys) + mset (drop l ys))"
      by simp
    also have "mset (take l ys) + mset (drop l ys) = mset ys"
      by (simp only: mset_append[symmetric] append_take_drop_id)
    finally show ?thesis .
  qed
  then show ?thesis by (simp add: bin_insert_def Let_def)
qed

lemma mset_binarysort: "mset (binarysort lt run rest) = mset run + mset rest"
  unfolding binarysort_def
  by (induction rest arbitrary: run) (simp_all add: mset_bin_insert)

lemma mset_py_sort: "mset (py_sort lt xs) = mset xs"
proof -
  have "mset (take n xs) + mset (drop n xs) = mset xs" for n
  proof -
    show ?thesis by (simp only: mset_append[symmetric] append_take_drop_id)
  qed
  then show ?thesis
    by (simp add: py_sort_def Let_def mset_binarysort)
qed

lemma example_lib_permutes: "sort_permutes example_lib"
  by (simp add: sort_permutes_def example_lib_def mset_py_sort)

lemma short_kinds:
  "list_all (\<lambda>t. t_kind t \<in> set claimed_kinds) (types (CodeGen_init ''s'' short_schema))"
  by code_simp

lemma short_phases:
  "(case run_phases example_lib (CodeGen_init ''s'' short_schema) init_state of
      Inl e \<Rightarrow> False | Inr p \<Rightarrow> True)"
  by code_simp

lemma odd_kinds:
  "list_ex (\<lambda>t. t_kind t \<notin> set claimed_kinds) (types (CodeGen_init ''s'' odd_schema))"
  by code_simp

lemma odd_phases:
  "(case run_phases example_lib (CodeGen_init ''s'' odd_schema) init_state of
      Inl e \<Rightarrow> False | Inr p \<Rightarrow> True)"
  by code_simp

theorem classification_total_witness:
  "sort_permutes example_lib \<and>
   (\<exists>s. run_phases example_lib (CodeGen_init ''s'' short_schema) init_state = Inr ([], s) \<and>
        write_types example_lib (CodeGen_init ''s'' short_schema) init_state = Inr s) \<and>
   write_types example_lib (CodeGen_init ''s'' odd_schema) init_state = Inl (AssertionError None)"
proof -
  from short_phases obtain r s where
    a: "run_phases example_lib (CodeGen_init ''s'' short_schema) init_state = Inr (r, s)"
    by (auto split: sum.splits)
  from short_kinds have k: "\<forall>t \<in> set (types (CodeGen_init ''s'' short_schema)). t_kind t \<in> set claimed_kinds"
    by (simp add: list_all_iff)
  from classification_total[OF example_lib_permutes, of "CodeGen_init ''s'' short_schema" init_state] k a
  have "r = [] \<and> write_types example_lib (CodeGen_init ''s'' short_schema) init_state = Inr s"
    by blast
  with a have one: "\<exists>s. run_phases example_lib (CodeGen_init ''s'' short_schema) init_state = Inr ([], s) \<and>
        write_types example_lib (CodeGen_init ''s'' short_schema) init_state = Inr s"
    by blast
  from odd_phases obtain r' s' where
    b: "run_phases example_lib (CodeGen_init ''s'' odd_schema) init_state = Inr (r', s')"
    by (auto split: sum.splits)
  from odd_kinds have k': "\<exists>t \<in> set (types (CodeGen_init ''s'' odd_schema)). t_kind t \<notin> set claimed_kinds"
    by (simp add: list_ex_iff)
  from classification_total[OF example_lib_permutes, of "CodeGen_init ''s'' odd_schema" init_state] k' b
  have two: "write_types example_lib (CodeGen_init ''s'' odd_schema) init_state = Inl (AssertionError None)"
    by blast
  from example_lib_permutes one two show ?thesis by blast
qed

section \<open>Interfaces are declared before the objects that implement them\<close>

lemma declared_inv_init: "declared_inv init_state"
  by (simp add: declared_inv_def init_state_def)

text \<open>
  C1. Take any schema, its types sorted by name by \<open>CodeGen_init\<close>, and let the
  first two phases run from the header; let the bucket they leave, sorted with
  \<open>depend_cmp\<close>, be \<open>pre @ t # post\<close>, with \<open>t\<close> an object that is not a built-in
  meta-object. If phase 3 gets through \<open>pre\<close> and then emits \<open>t\<close>, every interface of
  \<open>t\<close> is in \<open>written_types\<close> at that moment and its declaration is a chunk of the
  output written so far, and the declaration of \<open>t\<close> is the next chunk after that
  output. This holds for interfaces that implement interfaces as for any other.
\<close>

theorem dependency_soundness:
  assumes "cg = CodeGen_init name sch"
    and "phases12 lib cg (write_header cg init_state) = Inr (remaining2, st2)"
    and "list_sort lib depend_cmp remaining2 = pre @ t # post"
    and "run_phase (mapper_output_containers lib cg) pre []
           (write_banner ''Output Objects and Interfaces'' st2) = Inr (remaining, st)"
    and "t_kind t = ''OBJECT''"
    and "t_name t \<notin> set builtin_object_names"
    and "write_type_object lib cg t st = Inr st'"
    and "iface \<in> set (or_empty (t_interfaces t))"
  shows "nr_name iface \<in> written_types st \<and>
    (\<exists>c \<in> set (out st). is_decl_of (nr_name iface) c) \<and>
    (\<exists>c cs. out st' = out st @ c # cs \<and> is_decl_of (t_name t) c) \<and>
    run_phase (mapper_output_containers lib cg) (pre @ [t]) []
      (write_banner ''Output Objects and Interfaces'' st2) = Inr (remaining, st')"
proof -
  have "grows init_state (write_header cg init_state)"
    by (simp add: only_writes_grows write_header_only_writes)
  from this phases12_grows[OF assms(2)] have "grows init_state st2" by (rule grows_trans)
  from this banner_grows have "grows init_state (write_banner ''Output Objects and Interfaces'' st2)"
    by (rule grows_trans)
  from this run_phase_output_grows[OF assms(4)] have "grows init_state st" by (rule grows_trans)
  with declared_inv_init have inv: "declared_inv st" by (rule declared_inv_grows)
  from assms(6,7) obtain bases inh where
    "collect_interfaces cg (written_types st) (or_empty (t_interfaces t))
       (if uses_relay cg \<and> suffix ''Connection'' (t_name t)
        then [''sgqlc.types.relay.Connection''] else [''sgqlc.types.Type'']) {} = Inr (bases, inh)"
    by (auto simp: write_type_object_def Let_def split: sum.splits prod.splits)
  from collect_interfaces_result[OF this] assms(8)
  have w: "nr_name iface \<in> written_types st" by blast
  with inv have d: "\<exists>c \<in> set (out st). is_decl_of (nr_name iface) c"
    by (simp add: declared_inv_def)
  from write_type_object_declares[OF assms(7,6)]
  have e: "\<exists>c cs. out st' = out st @ c # cs \<and> is_decl_of (t_name t) c"
    by (auto simp: declares_def)
  have "run_phase (mapper_output_containers lib cg) (pre @ [t]) []
      (write_banner ''Output Objects and Interfaces'' st2) = Inr (remaining, st')"
    using assms(4,5,7) by (simp add: run_phase_append mapper_output_containers_def)
  with w d e show ?thesis by blast
qed

lemma short_phase3:
  "\<not> isl (phases12 example_lib (CodeGen_init ''s'' short_schema)
            (write_header (CodeGen_init ''s'' short_schema) init_state)) \<and>
   list_sort example_lib depend_cmp
     (fst (projr (phases12 example_lib (CodeGen_init ''s'' short_schema)
                   (write_header (CodeGen_init ''s'' short_schema) init_state))))
     = [type_A, type_Z] @ type_D # [] \<and>
   \<not> isl (run_phase (mapper_output_containers example_lib (CodeGen_init ''s'' short_schema))
            [type_A, type_Z] []
            (write_banner ''Output Objects and Interfaces''
              (snd (projr (phases12 example_lib (CodeGen_init ''s'' short_schema)
                            (write_header (CodeGen_init ''s'' short_schema) init_state)))))) \<and>
   \<not> isl (write_type_object example_lib (CodeGen_init ''s'' short_schema) type_D
            (snd (projr (run_phase
                (mapper_output_containers example_lib (CodeGen_init ''s'' short_schema))
                [type_A, type_Z] []
                (write_banner ''Output Objects and Interfaces''
                  (snd (projr (phases12 example_lib (CodeGen_init ''s'' short_schema)
                         (write_header (CodeGen_init ''s'' short_schema) init_state)))))))))"
  by code_simp

lemma not_isl_Inr: "\<not> isl x \<Longrightarrow> x = Inr (projr x)"
  by (cases x) simp_all

lemma type_D_facts:
  "t_kind type_D = ''OBJECT'' \<and> t_name type_D \<notin> set builtin_object_names \<and>
   NamedRef ''Z'' \<in> set (or_empty (t_interfaces type_D))"
  by (simp add: type_D_def mk_type_def builtin_object_names_def)

theorem dependency_soundness_witness:
  "\<exists>r2 st2 r st st'.
     phases12 example_lib (CodeGen_init ''s'' short_schema)
       (write_header (CodeGen_init ''s'' short_schema) init_state) = Inr (r2, st2) \<and>
     list_sort example_lib depend_cmp r2 = [type_A, type_Z] @ type_D # [] \<and>
     run_phase (mapper_output_containers example_lib (CodeGen_init ''s'' short_schema))
       [type_A, type_Z] [] (write_banner ''Output Objects and Interfaces'' st2) = Inr (r, st) \<and>
     write_type_object example_lib (CodeGen_init ''s'' short_schema) type_D st = Inr st' \<and>
     ''Z'' \<in> written_types st \<and>
     (\<exists>c \<in> set (out st). is_decl_of ''Z'' c) \<and>
     (\<exists>c cs. out st' = out st @ c # cs \<and> is_decl_of (t_name type_D) c)"
proof -
  let ?cg = "CodeGen_init ''s'' short_schema"
  define p where "p = projr (phases12 example_lib ?cg (write_header ?cg init_state))"
  define q where "q = projr (run_phase (mapper_output_containers example_lib ?cg)
      [type_A, type_Z] [] (write_banner ''Output Objects and Interfaces'' (snd p)))"
  define st' where "st' = projr (write_type_object example_lib ?cg type_D (snd q))"
  from short_phase3 have
    a: "phases12 example_lib ?cg (write_header ?cg init_state) = Inr (fst p, snd p)"
    using not_isl_Inr[of "phases12 example_lib ?cg (write_header ?cg init_state)"]
    by (simp add: p_def)
  from short_phase3 have
    b: "list_sort example_lib depend_cmp (fst p) = [type_A, type_Z] @ type_D # []"
    by (simp add: p_def)
  from short_phase3 have
    c: "run_phase (mapper_output_containers example_lib ?cg) [type_A, type_Z] []
              (write_banner ''Output Objects and Interfaces'' (snd p)) = Inr (fst q, snd q)"
    using not_isl_Inr[of "run_phase (mapper_output_containers example_lib ?cg)
      [type_A, type_Z] [] (write_banner ''Output Objects and Interfaces'' (snd p))"]
    by (simp add: p_def q_def del: run_phase.simps)
  from short_phase3 have
    d: "write_type_object example_lib ?cg type_D (snd q) = Inr st'"
    using not_isl_Inr[of "write_type_object example_lib ?cg type_D (snd q)"]
    by (simp add: p_def q_def st'_def del: run_phase.simps)
  from type_D_facts have k: "t_kind type_D = ''OBJECT''"
    and n: "t_name type_D \<notin> set builtin_object_names"
    and i: "NamedRef ''Z'' \<in> set (or_empty (t_interfaces type_D))"
    by blast+
  from dependency_soundness[OF refl a b c k n d i]
  have "''Z'' \<in> written_types (snd q) \<and> (\<exists>c \<in> set (out (snd q)). is_decl_of ''Z'' c) \<and>
        (\<exists>c cs. out st' = out (snd q) @ c # cs \<and> is_decl_of (t_name type_D) c)"
    by simp
  with a b c d show ?thesis by blast
qed

text \<open>
  The order that \<open>depend_cmp\<close> gives does not by itself put every interface first:
  in the schema with \<open>E\<close>, sorted by name as \<open>A, D, E, Z\<close>, no neighbour compares
  below the one before it, the sort leaves the list as it is, and the run ends at
  \<open>D\<close> with the assertion on \<open>Z\<close>. It is the assertion of \<open>write_type_object\<close> that
  keeps an object from being emitted before its interfaces.
\<close>

lemma chain_schema_aborts:
  "map t_name (types (CodeGen_init ''s'' chain_schema)) = [''A'', ''D'', ''E'', ''Z''] \<and>
   list_sort example_lib depend_cmp (types (CodeGen_init ''s'' chain_schema))
     = types (CodeGen_init ''s'' chain_schema) \<and>
   CodeGen_write example_lib (CodeGen_init ''s'' chain_schema) init_state
     = Inl (AssertionError (Some ''Z''))"
  by code_simp

end
